theory Spec2Isabelle
  imports Complex_Main "HOL-Library.Sublist"
begin

section \<open>Python strings\<close>

text \<open>
  A Python \<open>str\<close> is modelled by the list of its UTF-8 bytes; a lone surrogate
  (a code point U+D800..U+DFFF, which \<open>str.encode\<close> refuses) is carried as its
  three-byte form \<open>0xED 0xA0..0xBF 0x80..0xBF\<close>. \<open>str.lower\<close> is modelled on the
  ASCII letters only, and \<open>urllib\<close> is the one of Python 3.7 and later, where \<open>~\<close>
  is never quoted.
\<close>

definition ascii_uppercase :: string where
  "ascii_uppercase = ''ABCDEFGHIJKLMNOPQRSTUVWXYZ''"

definition ascii_lowercase :: string where
  "ascii_lowercase = ''abcdefghijklmnopqrstuvwxyz''"

definition digits :: string where
  "digits = ''0123456789''"

definition lower_char :: "char \<Rightarrow> char" where
  "lower_char c =
     (case map_of (zip ascii_uppercase ascii_lowercase) c of Some l \<Rightarrow> l | None \<Rightarrow> c)"

text \<open>\<open>s.lower()\<close>\<close>

definition lower :: "string \<Rightarrow> string" where
  "lower s = map lower_char s"

text \<open>\<open>needle in hay\<close> on strings: \<open>needle\<close> occurs as a contiguous run.\<close>

fun py_in :: "string \<Rightarrow> string \<Rightarrow> bool" where
  "py_in needle [] = (needle = [])"
| "py_in needle (c # cs) = (prefix needle (c # cs) \<or> py_in needle cs)"

text \<open>\<open>s.replace(' ', '_')\<close>\<close>

definition replace_space :: "string \<Rightarrow> string" where
  "replace_space s = map (\<lambda>c. if c = CHR '' '' then CHR ''_'' else c) s"

text \<open>Truthiness of an optional string: neither \<open>None\<close> nor empty.\<close>

fun truthy_str :: "string option \<Rightarrow> bool" where
  "truthy_str None = False"
| "truthy_str (Some s) = (s \<noteq> [])"

text \<open>
  A string value put into an f-string or through \<open>str\<close>: itself, and \<open>'None'\<close>
  for \<open>None\<close>.
\<close>

fun str_opt :: "string option \<Rightarrow> string" where
  "str_opt None = ''None''"
| "str_opt (Some s) = s"

text \<open>\<open>str(n)\<close> of an integer.\<close>

fun str_nat :: "nat \<Rightarrow> string" where
  "str_nat n =
     (if n < 10 then [digits ! n] else str_nat (n div 10) @ [digits ! (n mod 10)])"

definition str_int :: "int \<Rightarrow> string" where
  "str_int i = (if i < 0 then CHR ''-'' # str_nat (nat (- i)) else str_nat (nat i))"

subsection \<open>\<open>urllib.parse\<close>: \<open>quote\<close>, \<open>quote_plus\<close>, \<open>urlencode\<close>\<close>

datatype exn = UnicodeEncodeError

text \<open>
  \<open>s.encode('utf-8')\<close> raises \<open>UnicodeEncodeError\<close> on a string holding a surrogate;
  on the byte model it is otherwise the identity.
\<close>

fun has_surrogate :: "string \<Rightarrow> bool" where
  "has_surrogate (a # b # cs) =
     ((a = CHR 0xED \<and> 160 \<le> (of_char b :: nat) \<and> (of_char b :: nat) \<le> 191)
      \<or> has_surrogate (b # cs))"
| "has_surrogate _ = False"

definition always_safe :: string where
  "always_safe = ascii_uppercase @ ascii_lowercase @ digits @ ''_.-~''"

definition hex_digits :: string where
  "hex_digits = ''0123456789ABCDEF''"

definition percent :: "char \<Rightarrow> string" where
  "percent c =
     [CHR ''%'', hex_digits ! ((of_char c :: nat) div 16), hex_digits ! ((of_char c :: nat) mod 16)]"

definition quote_byte :: "string \<Rightarrow> char \<Rightarrow> string" where
  "quote_byte safe c = (if c \<in> set always_safe \<or> c \<in> set safe then [c] else percent c)"

text \<open>\<open>quote(s)\<close>, with its default \<open>safe='/'\<close>\<close>

definition quote :: "string \<Rightarrow> exn + string" where
  "quote s =
     (if has_surrogate s then Inl UnicodeEncodeError
      else Inr (concat (map (quote_byte ''/'') s)))"

text \<open>\<open>quote_plus(s)\<close>: nothing but the unreserved characters is safe, a space becomes \<open>+\<close>\<close>

definition quote_plus :: "string \<Rightarrow> exn + string" where
  "quote_plus s =
     (if has_surrogate s then Inl UnicodeEncodeError
      else Inr (concat (map (\<lambda>c. if c = CHR '' '' then ''+'' else quote_byte [] c) s)))"

text \<open>\<open>urlencode(params)\<close> of a dict of strings, in insertion order\<close>

fun urlencode :: "(string \<times> string) list \<Rightarrow> exn + string" where
  "urlencode [] = Inr []"
| "urlencode ((k, v) # ps) =
     (case quote_plus k of Inl e \<Rightarrow> Inl e | Inr k' \<Rightarrow>
      case quote_plus v of Inl e \<Rightarrow> Inl e | Inr v' \<Rightarrow>
      case urlencode ps of Inl e \<Rightarrow> Inl e | Inr r \<Rightarrow>
        Inr (k' @ ''='' @ v' @ (if ps = [] then [] else ''&'' @ r)))"

subsection \<open>\<open>re.search\<close> for the identifier patterns\<close>

definition asin_chars :: string where
  "asin_chars = ascii_uppercase @ digits"

text \<open>
  \<open>(?:[/?]|$)\<close> at the rest of the string: a slash or a question mark, or the end of
  the string, which \<open>$\<close> also finds before one final newline.
\<close>

fun terminator :: "string \<Rightarrow> bool" where
  "terminator [] = True"
| "terminator (c # cs) = (c = CHR ''/'' \<or> c = CHR ''?'' \<or> (c = CHR 0x0A \<and> cs = []))"

text \<open>
  One Amazon pattern \<open>lit([A-Z0-9]{10})\<close>, followed by \<open>(?:[/?]|$)\<close> when \<open>term\<close>,
  matched at the start of \<open>s\<close>; the result is group 1.
\<close>

definition match_asin_here :: "string \<times> bool \<Rightarrow> string \<Rightarrow> string option" where
  "match_asin_here pat s =
     (let r = drop (length (fst pat)) s; g = take 10 r
      in if prefix (fst pat) s \<and> length g = 10 \<and> list_all (\<lambda>c. c \<in> set asin_chars) g
            \<and> (if snd pat then terminator (drop 10 r) else True)
         then Some g else None)"

text \<open>
  One eBay pattern \<open>lit([0-9]{n,})\<close> matched at the start of \<open>s\<close>: the group is
  the whole run of digits.
\<close>

definition match_digits_here :: "string \<times> nat \<Rightarrow> string \<Rightarrow> string option" where
  "match_digits_here pat s =
     (let g = takeWhile (\<lambda>c. c \<in> set digits) (drop (length (fst pat)) s)
      in if prefix (fst pat) s \<and> snd pat \<le> length g then Some g else None)"

text \<open>\<open>re.search\<close>: the match at the leftmost position where the pattern matches.\<close>

fun re_search :: "(string \<Rightarrow> string option) \<Rightarrow> string \<Rightarrow> string option" where
  "re_search m [] = m []"
| "re_search m (c # cs) =
     (case m (c # cs) of Some g \<Rightarrow> Some g | None \<Rightarrow> re_search m cs)"

text \<open>The loop \<open>for pattern in patterns\<close>: the first pattern that is found wins.\<close>

fun first_match :: "(string \<Rightarrow> string option) list \<Rightarrow> string \<Rightarrow> string option" where
  "first_match [] url = None"
| "first_match (m # ms) url =
     (case re_search m url of Some g \<Rightarrow> Some g | None \<Rightarrow> first_match ms url)"

definition amazon_patterns :: "(string \<times> bool) list" where
  "amazon_patterns =
     [(''/dp/'', False), (''/gp/product/'', False), (''/product/'', False),
      (''asin='', False), (''/'', True)]"

definition extract_amazon_asin :: "string \<Rightarrow> string option" where
  "extract_amazon_asin url = first_match (map match_asin_here amazon_patterns) url"

definition ebay_patterns :: "(string \<times> nat) list" where
  "ebay_patterns = [(''/itm/'', 1), (''item='', 1), (''/'', 12)]"

definition extract_ebay_item_id :: "string \<Rightarrow> string option" where
  "extract_ebay_item_id url = first_match (map match_digits_here ebay_patterns) url"

section \<open>The affiliate link generator (\<open>affiliate_link_generator.py\<close>)\<close>

text \<open>
  The settings the builders read from \<open>Config\<close>. \<open>None\<close> stands for a setting that
  is unset, and for an attribute the class does not have (\<open>hasattr\<close> is false).
\<close>

record config =
  AMAZON_ASSOCIATE_TAG :: "string option"
  EBAY_CAMPAIGN_ID :: "string option"
  ALIEXPRESS_TRACKING_ID :: "string option"
  WALMART_PUBLISHER_ID :: "string option"
  TARGET_PUBLISHER_ID :: "string option"
  BESTBUY_PUBLISHER_ID :: "string option"

text \<open>\<open>"&" if "?" in product_url else "?"\<close>\<close>

definition separator :: "string \<Rightarrow> string" where
  "separator product_url = (if py_in ''?'' product_url then ''&'' else ''?'')"

text \<open>\<open>x or y\<close> on optional strings\<close>

definition py_or :: "string option \<Rightarrow> string option \<Rightarrow> string option" where
  "py_or x y = (if truthy_str x then x else y)"

definition generate_amazon_link :: "config \<Rightarrow> string \<Rightarrow> string option \<Rightarrow> string" where
  "generate_amazon_link cfg product_url product_id =
     (if \<not> truthy_str (AMAZON_ASSOCIATE_TAG cfg) then product_url
      else
        let tag = str_opt (AMAZON_ASSOCIATE_TAG cfg);
            asin = py_or (extract_amazon_asin product_url) product_id
        in if truthy_str asin
           then ''https://www.amazon.com/dp/'' @ str_opt asin @ ''?tag='' @ tag
                  @ ''&linkCode=ogi&th=1&psc=1''
           else product_url @ separator product_url @ ''tag='' @ tag)"

text \<open>\<open>now\<close> is \<open>int(time.time())\<close>.\<close>

definition generate_ebay_link ::
  "config \<Rightarrow> int \<Rightarrow> string \<Rightarrow> string option \<Rightarrow> exn + string" where
  "generate_ebay_link cfg now product_url product_id =
     (if \<not> truthy_str (EBAY_CAMPAIGN_ID cfg) then Inr product_url
      else
        let base_url = ''https://rover.ebay.com/rover/1/711-53200-19255-0/1'';
            params =
              [(''icep_ff3'', ''2''),
               (''pub'', str_opt (EBAY_CAMPAIGN_ID cfg)),
               (''toolid'', ''10001''),
               (''campid'', ''5338452986''),
               (''customid'', []),
               (''icep_item'', str_opt (py_or product_id (extract_ebay_item_id product_url))),
               (''ipn'', ''psmain''),
               (''icep_vectorid'', ''229466''),
               (''kwid'', ''902099''),
               (''mtid'', ''824''),
               (''kw'', ''lg''),
               (''srcrot'', ''711-53200-19255-0''),
               (''rvr_id'', ''2348474186''),
               (''rvr_ts'', str_int now)]
        in case urlencode params of Inl e \<Rightarrow> Inl e | Inr q \<Rightarrow>
           case quote product_url of Inl e \<Rightarrow> Inl e | Inr u \<Rightarrow>
             Inr (base_url @ ''?'' @ q @ ''&mpre='' @ u))"

definition generate_aliexpress_link :: "config \<Rightarrow> string \<Rightarrow> string" where
  "generate_aliexpress_link cfg product_url =
     (if \<not> truthy_str (ALIEXPRESS_TRACKING_ID cfg) then product_url
      else
        let affiliate_params =
              ''aff_trace_key='' @ str_opt (ALIEXPRESS_TRACKING_ID cfg)
                @ ''&terminal_id=d4c0d3b6c8a44e6b9c8f2e1a3b5d7f9e''
        in product_url @ separator product_url @ affiliate_params)"

text \<open>The Walmart, Target and Best Buy builders differ in the setting and the base URL only.\<close>

definition impact_link :: "string option \<Rightarrow> string \<Rightarrow> string \<Rightarrow> exn + string" where
  "impact_link publisher_id base_url product_url =
     (if \<not> truthy_str publisher_id then Inr product_url
      else case quote product_url of Inl e \<Rightarrow> Inl e | Inr u \<Rightarrow>
        Inr (base_url @ ''?veh=aff&sourceid='' @ str_opt publisher_id @ ''&u='' @ u))"

definition generate_walmart_link :: "config \<Rightarrow> string \<Rightarrow> exn + string" where
  "generate_walmart_link cfg product_url =
     impact_link (WALMART_PUBLISHER_ID cfg) ''https://goto.walmart.com/c/2003851/565706/9383''
       product_url"

definition generate_target_link :: "config \<Rightarrow> string \<Rightarrow> exn + string" where
  "generate_target_link cfg product_url =
     impact_link (TARGET_PUBLISHER_ID cfg) ''https://goto.target.com/c/2003851/81938/2092''
       product_url"

definition generate_bestbuy_link :: "config \<Rightarrow> string \<Rightarrow> exn + string" where
  "generate_bestbuy_link cfg product_url =
     impact_link (BESTBUY_PUBLISHER_ID cfg) ''https://bestbuy.7tiv.net/c/2003851/633495/10014''
       product_url"

definition utm_params :: "string \<Rightarrow> (string \<times> string) list" where
  "utm_params store_name =
     [(''utm_source'', ''telegram_bot''),
      (''utm_medium'', ''affiliate''),
      (''utm_campaign'', ''deals_bot''),
      (''utm_content'', replace_space (lower store_name))]"

definition generate_generic_tracking_link :: "string \<Rightarrow> string \<Rightarrow> exn + string" where
  "generate_generic_tracking_link product_url store_name =
     (case urlencode (utm_params store_name) of Inl e \<Rightarrow> Inl e | Inr q \<Rightarrow>
        Inr (product_url @ separator product_url @ q))"

text \<open>
  The \<open>if\<close>/\<open>elif\<close> chain inside the \<open>try\<close> of \<open>generate_affiliate_link\<close>, on the
  lowercased store name; \<open>Inl\<close> is an exception leaving a builder.
\<close>

definition dispatch ::
  "config \<Rightarrow> int \<Rightarrow> string \<Rightarrow> string \<Rightarrow> string option \<Rightarrow> exn + string" where
  "dispatch cfg now product_url store_name product_id =
     (if py_in ''amazon'' store_name then Inr (generate_amazon_link cfg product_url product_id)
      else if py_in ''ebay'' store_name then generate_ebay_link cfg now product_url product_id
      else if py_in ''aliexpress'' store_name then Inr (generate_aliexpress_link cfg product_url)
      else if py_in ''walmart'' store_name then generate_walmart_link cfg product_url
      else if py_in ''target'' store_name then generate_target_link cfg product_url
      else if py_in ''bestbuy'' store_name \<or> py_in ''best buy'' store_name
        then generate_bestbuy_link cfg product_url
      else generate_generic_tracking_link product_url store_name)"

text \<open>The handler \<open>except Exception\<close> logs the error and returns \<open>product_url\<close>.\<close>

definition generate_affiliate_link ::
  "config \<Rightarrow> int \<Rightarrow> string \<Rightarrow> string \<Rightarrow> string option \<Rightarrow> string" where
  "generate_affiliate_link cfg now product_url store_name product_id =
     (case dispatch cfg now product_url (lower store_name) product_id of
        Inl e \<Rightarrow> product_url
      | Inr affiliate_url \<Rightarrow> affiliate_url)"

section \<open>The catalog (\<open>database.py\<close>)\<close>

text \<open>
  A \<open>DateTime\<close> is a count of microseconds, a \<open>Float\<close> column is a real number
  (the arithmetic of the passes is exact in the model), and a column that may be
  \<open>NULL\<close> is an option. A table is the list of its rows; a row is named by its position,
  which stands for the identity the session gives each loaded object. The columns that
  no pass reads or writes are left out of the records.
\<close>

type_synonym datetime = int

definition timedelta_hours :: "int \<Rightarrow> int" where
  "timedelta_hours h = h * 3600000000"

definition timedelta_days :: "int \<Rightarrow> int" where
  "timedelta_days d = d * 86400000000"

record product =
  title :: string
  price :: "real option"
  original_price :: "real option"
  discount_percentage :: "real option"
  is_daily_deal :: "bool option"
  is_active :: "bool option"
  rating :: "real option"
  updated_at :: "datetime option"

text \<open>The \<open>User\<close> column \<open>is_active\<close> is the field \<open>user_is_active\<close>.\<close>

record user =
  telegram_id :: int
  is_admin :: "bool option"
  user_is_active :: "bool option"

text \<open>
  The attributes of the mapped class \<open>User\<close>, as \<open>database.py\<close> declares them: its
  columns and its relationship. There is no \<open>notifications_enabled\<close> among them.
\<close>

definition user_attributes :: "string list" where
  "user_attributes =
     [''id'', ''telegram_id'', ''username'', ''first_name'', ''last_name'', ''is_admin'',
      ''is_active'', ''preferred_categories'', ''max_price_filter'', ''min_discount_filter'',
      ''created_at'', ''last_active'', ''clicks'']"

text \<open>The value of a boolean column of a user, by the name of the column.\<close>

definition user_bool :: "string \<Rightarrow> user \<Rightarrow> bool option" where
  "user_bool k u =
     (if k = ''is_active'' then user_is_active u
      else if k = ''is_admin'' then is_admin u
      else None)"

datatype sql_error = InvalidRequestError

text \<open>
  \<open>session.query(User).filter_by(k1=v1, ...).all()\<close> with boolean values: a keyword
  that names no attribute of \<open>User\<close> raises \<open>InvalidRequestError\<close>; otherwise the
  result is the users whose columns have the values asked for.
\<close>

definition filter_by :: "(string \<times> bool) list \<Rightarrow> user list \<Rightarrow> sql_error + user list" where
  "filter_by criteria tbl =
     (if list_all (\<lambda>(k, v). k \<in> set user_attributes) criteria
      then Inr (filter (\<lambda>u. list_all (\<lambda>(k, v). user_bool k u = Some v) criteria) tbl)
      else Inl InvalidRequestError)"

record click_tracking =
  user_id :: "nat option"
  product_id :: "nat option"
  clicked_at :: "datetime option"

record database =
  products :: "product list"
  users :: "user list"
  click_tracking :: "click_tracking list"

text \<open>The SQL comparisons \<open>column < v\<close> and \<open>column >= v\<close>, which no \<open>NULL\<close> satisfies.\<close>

fun sql_less :: "'a::linorder option \<Rightarrow> 'a \<Rightarrow> bool" where
  "sql_less None v = False"
| "sql_less (Some x) v = (x < v)"

fun sql_ge :: "'a::linorder option \<Rightarrow> 'a \<Rightarrow> bool" where
  "sql_ge None v = False"
| "sql_ge (Some x) v = (v \<le> x)"

text \<open>\<open>session.query(T).filter(cond)\<close>: the rows that satisfy \<open>cond\<close>, in table order.\<close>

definition query_filter :: "('a \<Rightarrow> bool) \<Rightarrow> 'a list \<Rightarrow> nat list" where
  "query_filter cond tbl = filter (\<lambda>i. cond (tbl ! i)) [0..<length tbl]"

section \<open>The price update pass (\<open>price_monitor.py\<close>)\<close>

text \<open>
  What the random generator gives for one product: the outcome of \<open>random.choices\<close>
  and the factor of \<open>random.uniform\<close>.
\<close>

datatype change_type = NoChange | Small | Big

record draw =
  change :: change_type
  factor :: real

text \<open>
  A nullable float is truthy when it is neither \<open>None\<close> nor zero: the tests
  \<open>if not current_price\<close>, \<open>if product.original_price\<close> and \<open>old_price and ...\<close>
  are the cases \<open>None\<close> and \<open>= 0\<close> below.

  \<open>round(x, 2)\<close>: to the nearest hundredth, a tie to the even one.
\<close>

definition round_half_even :: "real \<Rightarrow> int" where
  "round_half_even x =
     (let f = \<lfloor>x\<rfloor>; d = x - of_int f
      in if d < 1 / 2 then f else if 1 / 2 < d then f + 1 else if even f then f else f + 1)"

definition round2 :: "real \<Rightarrow> real" where
  "round2 x = of_int (round_half_even (x * 100)) / 100"

definition simulate_price_change :: "draw \<Rightarrow> real option \<Rightarrow> real option" where
  "simulate_price_change d current_price =
     (case current_price of
        None \<Rightarrow> current_price
      | Some cur \<Rightarrow>
          if cur = 0 then current_price
          else if change d = NoChange then current_price
          else let new_price = round2 (cur * factor d) in Some (max new_price 0.99))"

record price_drop =
  drop_product :: nat
  old_price :: real
  new_price :: real
  discount :: real

text \<open>
  The body of the loop for one selected product \<open>p\<close>, row \<open>i\<close>: the product after it,
  whether \<open>updated_count\<close> grows, and the price drop appended, if any. \<open>stamp\<close> is
  the clock read by \<open>datetime.utcnow()\<close>. In the branch taken when the price changed
  both prices are numbers, since \<open>_simulate_price_change\<close> returns a falsy price as it is.
\<close>

definition update_price ::
  "datetime \<Rightarrow> draw \<Rightarrow> nat \<Rightarrow> product \<Rightarrow> product \<times> bool \<times> price_drop option" where
  "update_price stamp d i p =
     (case (price p, simulate_price_change d (price p)) of
        (Some old, Some new) \<Rightarrow>
          if new \<noteq> old then
            let p1 = (case original_price p of
                        None \<Rightarrow> p
                      | Some orig \<Rightarrow>
                          if orig = 0 then p
                          else let discount_pct = ((orig - new) / orig) * 100
                               in p\<lparr>discount_percentage :=
                                      (if discount_pct > 0 then Some discount_pct else None)\<rparr>);
                p2 = p1\<lparr>price := Some new, updated_at := Some stamp\<rparr>;
                dropped =
                  (if old \<noteq> 0 \<and> new < old * 0.9
                   then Some \<lparr>drop_product = i, old_price = old, new_price = new,
                               discount = ((old - new) / old) * 100\<rparr>
                   else None)
            in (p2, True, dropped)
          else (p, False, None)
      | _ \<Rightarrow> (p, False, None))"

text \<open>
  The environment of one pass: the clock at the query, and for the \<open>k\<close>-th selected
  product the draw and the clock at its update.
\<close>

record pass_env =
  utcnow :: datetime
  draws :: "nat \<Rightarrow> draw"
  stamps :: "nat \<Rightarrow> datetime"

text \<open>The query: active products not updated since the cutoff, at most 50 of them.\<close>

definition stale :: "datetime \<Rightarrow> product \<Rightarrow> bool" where
  "stale now p =
     (is_active p = Some True \<and> sql_less (updated_at p) (now - timedelta_hours 2))"

definition stale_products :: "datetime \<Rightarrow> product list \<Rightarrow> nat list" where
  "stale_products now tbl = take 50 (query_filter (stale now) tbl)"

text \<open>
  The loop \<open>for product in products\<close>, at the \<open>k\<close>-th product, on the table, the
  count of updates and the price drops collected so far.
\<close>

fun price_loop ::
  "pass_env \<Rightarrow> nat \<Rightarrow> nat list \<Rightarrow> product list \<times> nat \<times> price_drop list
     \<Rightarrow> product list \<times> nat \<times> price_drop list" where
  "price_loop env k [] st = st"
| "price_loop env k (i # rest) (tbl, updated_count, price_drops) =
     (case update_price (stamps env k) (draws env k) i (tbl ! i) of
        (p', updated, dropped) \<Rightarrow>
          price_loop env (Suc k) rest
            (tbl[i := p'],
             if updated then updated_count + 1 else updated_count,
             case dropped of None \<Rightarrow> price_drops | Some d \<Rightarrow> price_drops @ [d]))"

text \<open>
  The pass returns the table it commits, \<open>updated_count\<close>, and the list
  \<open>price_drops\<close> it has collected for the notifier; what becomes of the list after
  the commit is outside the model.
\<close>

definition update_product_prices ::
  "pass_env \<Rightarrow> product list \<Rightarrow> product list \<times> nat \<times> price_drop list" where
  "update_product_prices env tbl =
     price_loop env 0 (stale_products (utcnow env) tbl) (tbl, 0, [])"

section \<open>The daily-deal reselection pass (\<open>price_monitor.py\<close>)\<close>

text \<open>
  The environment of one pass: the clock at the bulk update (the column \<open>updated_at\<close>
  is declared with \<open>onupdate=datetime.utcnow\<close>), the value of \<open>random.randint(8, 12)\<close>,
  the positions that \<open>random.sample(population, k)\<close> takes from a population of \<open>n\<close>
  elements, in the order it returns them, and the clock when the \<open>k\<close>-th deal is marked.
\<close>

record deals_env =
  cleared_at :: datetime
  randint :: nat
  sample :: "nat \<Rightarrow> nat \<Rightarrow> nat list"
  marked_at :: "nat \<Rightarrow> datetime"

text \<open>What the library promises of \<open>randint(8, 12)\<close> and of \<open>sample\<close> when \<open>k \<le> n\<close>.\<close>

definition randint_ok :: "nat \<Rightarrow> bool" where
  "randint_ok r = (8 \<le> r \<and> r \<le> 12)"

definition sample_ok :: "nat list \<Rightarrow> nat \<Rightarrow> nat \<Rightarrow> bool" where
  "sample_ok pos n k = (distinct pos \<and> length pos = k \<and> list_all (\<lambda>j. j < n) pos)"

text \<open>
  \<open>query.filter(Product.is_daily_deal == True).update({'is_daily_deal': False})\<close>: the
  bulk \<open>UPDATE\<close> of the flagged rows, which also gives \<open>updated_at\<close> its
  \<open>onupdate\<close> value.
\<close>

definition clear_daily_deals :: "datetime \<Rightarrow> product list \<Rightarrow> product list" where
  "clear_daily_deals now tbl =
     map (\<lambda>p. if is_daily_deal p = Some True
              then p\<lparr>is_daily_deal := Some False, updated_at := Some now\<rparr> else p) tbl"

definition qualifies :: "product \<Rightarrow> bool" where
  "qualifies p =
     (is_active p = Some True \<and> sql_ge (discount_percentage p) 15 \<and> sql_ge (rating p) 4.0)"

text \<open>
  \<open>order_by(Product.discount_percentage.desc())\<close>: the sort key of a row; rows of equal
  discount stay in table order.
\<close>

fun desc_key :: "real option \<Rightarrow> real" where
  "desc_key None = 0"
| "desc_key (Some d) = - d"

definition candidates :: "product list \<Rightarrow> nat list" where
  "candidates tbl =
     take 20 (sort_key (\<lambda>i. desc_key (discount_percentage (tbl ! i))) (query_filter qualifies tbl))"

text \<open>The loop \<open>for product in daily_deals\<close>, at the \<open>k\<close>-th deal.\<close>

fun mark_loop :: "(nat \<Rightarrow> datetime) \<Rightarrow> nat \<Rightarrow> nat list \<Rightarrow> product list \<Rightarrow> product list" where
  "mark_loop clock k [] tbl = tbl"
| "mark_loop clock k (i # rest) tbl =
     mark_loop clock (Suc k) rest
       (tbl[i := (tbl ! i)\<lparr>is_daily_deal := Some True, updated_at := Some (clock k)\<rparr>])"

text \<open>The pass returns the table it commits and the list \<open>daily_deals\<close>.\<close>

definition refresh_daily_deals :: "deals_env \<Rightarrow> product list \<Rightarrow> product list \<times> nat list" where
  "refresh_daily_deals env tbl =
     (let tbl1 = clear_daily_deals (cleared_at env) tbl;
          cands = candidates tbl1;
          num_deals = randint env;
          daily_deals =
            map (\<lambda>j. cands ! j) (sample env (length cands) (min num_deals (length cands)))
      in (mark_loop (marked_at env) 0 daily_deals tbl1, daily_deals))"

section \<open>The retention sweep (\<open>price_monitor.py\<close>)\<close>

text \<open>The sweep returns the database it commits and \<open>deleted_clicks\<close>.\<close>

definition cleanup_old_data :: "datetime \<Rightarrow> database \<Rightarrow> database \<times> nat" where
  "cleanup_old_data now db =
     (let cutoff_date = now - timedelta_days 90;
          old = (\<lambda>c. sql_less (clicked_at c) cutoff_date)
      in (db\<lparr>click_tracking := filter (\<lambda>c. \<not> old c) (click_tracking db)\<rparr>,
          length (filter old (click_tracking db))))"

section \<open>The notification passes (\<open>notifications.py\<close>)\<close>

text \<open>
  What one call of \<open>bot.send_message\<close> does: it returns, or raises a
  \<open>TelegramError\<close> with a message, or raises an exception of another class.
\<close>

datatype send_result = Sent | TelegramError string | OtherException string

text \<open>The handler \<open>except TelegramError\<close> of both loops, on the user being served.\<close>

definition on_telegram_error :: "string \<Rightarrow> user \<Rightarrow> user" where
  "on_telegram_error msg u =
     (if py_in ''bot was blocked'' (lower msg) then u\<lparr>user_is_active := Some False\<rparr> else u)"

text \<open>
  The state of a loop over the recipients: the users already served, \<open>sent_count\<close>,
  the chats \<open>send_message\<close> was called for, and the messages of the errors logged.
\<close>

record loop_state =
  served :: "user list"
  sent_count :: nat
  attempts :: "int list"
  logged :: "string list"

text \<open>
  The loop \<open>for user in users\<close>, written alike in both passes, over the recipients
  (the list \<open>users\<close> of the source), at the \<open>k\<close>-th recipient, whose call has the
  outcome \<open>outcome k\<close>. \<open>Inl\<close> is an exception that leaves the loop, with the users
  as they stand then.
\<close>

fun notify_loop ::
  "(nat \<Rightarrow> send_result) \<Rightarrow> nat \<Rightarrow> user list \<Rightarrow> loop_state \<Rightarrow> string \<times> user list + loop_state" where
  "notify_loop outcome k [] st = Inr st"
| "notify_loop outcome k (u # rest) st =
     (let st1 = st\<lparr>attempts := attempts st @ [telegram_id u]\<rparr>
      in case outcome k of
           Sent \<Rightarrow>
             notify_loop outcome (Suc k) rest
               (st1\<lparr>served := served st @ [u], sent_count := sent_count st + 1\<rparr>)
         | TelegramError msg \<Rightarrow>
             notify_loop outcome (Suc k) rest
               (st1\<lparr>served := served st @ [on_telegram_error msg u],
                    logged := logged st @ [msg]\<rparr>)
         | OtherException msg \<Rightarrow> Inl (msg, served st @ u # rest))"

definition start :: loop_state where
  "start = \<lparr>served = [], sent_count = 0, attempts = [], logged = []\<rparr>"

text \<open>
  What a pass does: it returns, with the recipients it has loaded as the database holds
  them afterwards and the count of sends it has reported, if it has reported one; or an
  exception leaves it, with the recipients as committed by then.
\<close>

datatype pass_result = Returned "user list" "nat option" | Raised string "user list"

text \<open>
  \<open>send_price_drop_alert\<close>, all of it inside \<open>try\<close>: the query of the recipients,
  the early return on an empty list, the loop, the \<open>session.commit()\<close> and the report.
  The building of the message reads the arguments only. The handler
  \<open>except Exception\<close> logs what reaches it and the function returns: nothing is
  committed and no count is reported.
\<close>

definition send_price_drop_alert :: "(nat \<Rightarrow> send_result) \<Rightarrow> database \<Rightarrow> pass_result" where
  "send_price_drop_alert outcome db =
     (case filter_by [(''is_active'', True), (''notifications_enabled'', True)] (users db) of
        Inl e \<Rightarrow> Returned [] None
      | Inr recipients \<Rightarrow>
          if recipients = [] then Returned [] None
          else case notify_loop outcome 0 recipients start of
                 Inr st \<Rightarrow> Returned (served st) (Some (sent_count st))
               | Inl (msg, recipients') \<Rightarrow> Returned recipients None)"

text \<open>The deals of the day: at most five active products with the flag.\<close>

definition todays_deals :: "product list \<Rightarrow> nat list" where
  "todays_deals tbl =
     take 5 (query_filter (\<lambda>p. is_daily_deal p = Some True \<and> is_active p = Some True) tbl)"

text \<open>The users that \<open>filter_by(is_active=True)\<close> returns.\<close>

definition active_users :: "user list \<Rightarrow> user list" where
  "active_users tbl = filter (\<lambda>u. user_is_active u = Some True) tbl"

text \<open>
  \<open>send_daily_deals_notification\<close>, which has no handler of its own: the query of the
  deals and the early return when there is none, the query of the recipients, the loop
  and the report. The building of the message raises nothing. A deactivation is committed
  in the handler of the loop at once; an exception of another class leaves the function.
\<close>

definition send_daily_deals_notification :: "(nat \<Rightarrow> send_result) \<Rightarrow> database \<Rightarrow> pass_result" where
  "send_daily_deals_notification outcome db =
     (let daily_deals = todays_deals (products db)
      in if daily_deals = [] then Returned [] None
         else case filter_by [(''is_active'', True)] (users db) of
                Inl e \<Rightarrow> Raised ''InvalidRequestError'' []
              | Inr recipients \<Rightarrow>
                  (case notify_loop outcome 0 recipients start of
                     Inr st \<Rightarrow> Returned (served st) (Some (sent_count st))
                   | Inl (msg, recipients') \<Rightarrow> Raised msg recipients'))"

section \<open>Concrete inputs\<close>

text \<open>A click table with a row older than the cutoff, a row exactly at it, and a row without a time.\<close>

definition click_old :: click_tracking where
  "click_old = \<lparr>user_id = Some 1, product_id = Some 7, clicked_at = Some 0\<rparr>"

definition click_at_cutoff :: click_tracking where
  "click_at_cutoff = \<lparr>user_id = Some 2, product_id = None, clicked_at = Some 864000000000\<rparr>"

definition click_null :: click_tracking where
  "click_null = \<lparr>user_id = None, product_id = Some 7, clicked_at = None\<rparr>"

definition db_clicks :: database where
  "db_clicks = \<lparr>products = [], users = [], click_tracking = [click_old, click_at_cutoff, click_null]\<rparr>"

text \<open>Settings: the Amazon tag alone, nothing at all, the Walmart publisher alone.\<close>

definition cfg_amazon :: config where
  "cfg_amazon = \<lparr>AMAZON_ASSOCIATE_TAG = Some ''yourtag-20'', EBAY_CAMPAIGN_ID = None,
     ALIEXPRESS_TRACKING_ID = None, WALMART_PUBLISHER_ID = None, TARGET_PUBLISHER_ID = None,
     BESTBUY_PUBLISHER_ID = None\<rparr>"

definition cfg_none :: config where
  "cfg_none = \<lparr>AMAZON_ASSOCIATE_TAG = None, EBAY_CAMPAIGN_ID = None,
     ALIEXPRESS_TRACKING_ID = None, WALMART_PUBLISHER_ID = None, TARGET_PUBLISHER_ID = None,
     BESTBUY_PUBLISHER_ID = None\<rparr>"

definition cfg_walmart :: config where
  "cfg_walmart = \<lparr>AMAZON_ASSOCIATE_TAG = None, EBAY_CAMPAIGN_ID = None,
     ALIEXPRESS_TRACKING_ID = None, WALMART_PUBLISHER_ID = Some ''pub1'', TARGET_PUBLISHER_ID = None,
     BESTBUY_PUBLISHER_ID = None\<rparr>"

text \<open>A URL that holds a lone surrogate (U+D800).\<close>

definition url_surrogate :: string where
  "url_surrogate = ''https://www.walmart.com/ip/'' @ [CHR 0xED, CHR 0xA0, CHR 0x80]"

text \<open>Three active users and an inactive one, and what the transport answers for each call.\<close>

definition user_a :: user where
  "user_a = \<lparr>telegram_id = 1001, is_admin = Some False, user_is_active = Some True\<rparr>"

definition user_b :: user where
  "user_b = \<lparr>telegram_id = 1002, is_admin = Some False, user_is_active = Some True\<rparr>"

definition user_c :: user where
  "user_c = \<lparr>telegram_id = 1003, is_admin = Some False, user_is_active = Some True\<rparr>"

definition outcomes_mixed :: "nat \<Rightarrow> send_result" where
  "outcomes_mixed k =
     (if k = 0 then TelegramError ''Forbidden: bot was blocked by the user''
      else if k = 1 then TelegramError ''Timed out''
      else Sent)"

definition outcomes_user_blocked :: "nat \<Rightarrow> send_result" where
  "outcomes_user_blocked k = TelegramError ''Forbidden: user is blocked''"


definition outcomes_crash :: "nat \<Rightarrow> send_result" where
  "outcomes_crash k =
     (if k = 0 then TelegramError ''Forbidden: bot was blocked by the user''
      else if k = 1 then OtherException ''RuntimeError''
      else Sent)"

text \<open>The six sample products of \<open>affiliate_manager.py\<close>.\<close>

definition sample_catalog :: "product list" where
  "sample_catalog =
     [\<lparr>title = ''Apple iPhone 15 Pro Max 256GB - Natural Titanium'', price = Some 1199.99,
        original_price = Some 1299.99, discount_percentage = Some 7.7,
        is_daily_deal = Some True, is_active = Some True, rating = Some 4.5,
        updated_at = Some 0\<rparr>,
      \<lparr>title = ''Samsung 65 QLED 4K Smart TV QN90C'', price = Some 1499.99,
        original_price = Some 1799.99, discount_percentage = Some 16.7,
        is_daily_deal = Some False, is_active = Some True, rating = Some 4.3,
        updated_at = Some 0\<rparr>,
      \<lparr>title = ''Nike Air Max 270 Mens Sneakers'', price = Some 89.99,
        original_price = Some 130.00, discount_percentage = Some 30.8,
        is_daily_deal = Some True, is_active = Some True, rating = Some 4.4,
        updated_at = Some 0\<rparr>,
      \<lparr>title = ''Fenty Beauty Pro Filtr Foundation'', price = Some 38.00,
        original_price = Some 42.00, discount_percentage = Some 9.5,
        is_daily_deal = Some False, is_active = Some True, rating = Some 4.2,
        updated_at = Some 0\<rparr>,
      \<lparr>title = ''Dyson V15 Detect Cordless Vacuum'', price = Some 649.99,
        original_price = Some 749.99, discount_percentage = Some 13.3,
        is_daily_deal = Some False, is_active = Some True, rating = Some 4.6,
        updated_at = Some 0\<rparr>,
      \<lparr>title = ''Instant Pot Duo 7-in-1 Electric Pressure Cooker'', price = Some 79.99,
        original_price = Some 99.99, discount_percentage = Some 20.0,
        is_daily_deal = Some True, is_active = Some True, rating = Some 4.7,
        updated_at = Some 0\<rparr>]"

text \<open>Thirteen products that all qualify, with discounts 15, 16, ..., 27.\<close>

definition large_catalog :: "product list" where
  "large_catalog =
     map (\<lambda>n. \<lparr>title = ''Product'', price = Some 50, original_price = Some 100,
                 discount_percentage = Some (15 + real n), is_daily_deal = Some False,
                 is_active = Some True, rating = Some 4.5, updated_at = Some 0\<rparr>)
       [0..<13]"

text \<open>A pass in which \<open>randint\<close> gives 8 and \<open>sample\<close> takes the last positions first.\<close>

definition env_deals :: deals_env where
  "env_deals = \<lparr>cleared_at = 1000, randint = 8, sample = (\<lambda>n k. rev [n - k..<n]),
                 marked_at = (\<lambda>k. 2000)\<rparr>"


text \<open>A product, and the same product inactive.\<close>

definition kettle :: product where
  "kettle = \<lparr>title = ''Kettle'', price = Some 10, original_price = Some 20,
     discount_percentage = Some 50, is_daily_deal = Some False, is_active = Some True,
     rating = Some 4.5, updated_at = Some 0\<rparr>"

definition inactive_kettle :: product where
  "inactive_kettle = kettle\<lparr>is_active := Some False\<rparr>"

text \<open>
  A pass three hours after the products' last update in which every draw is a big change
  by the factor 0.9.
\<close>

definition env_drop :: pass_env where
  "env_drop = \<lparr>utcnow = 10800000000, draws = (\<lambda>k. \<lparr>change = Big, factor = 0.9\<rparr>),
                stamps = (\<lambda>k. 10800000000)\<rparr>"

text \<open>A pass at the same time in which every draw is no change.\<close>

definition env_quiet :: pass_env where
  "env_quiet = \<lparr>utcnow = 10800000000, draws = (\<lambda>k. \<lparr>change = NoChange, factor = 1\<rparr>),
                 stamps = (\<lambda>k. 10800000000)\<rparr>"


definition user_gone :: user where
  "user_gone = \<lparr>telegram_id = 1004, is_admin = Some False, user_is_active = Some False\<rparr>"

text \<open>The sample products with four users, and with one user.\<close>

definition db_four_users :: database where
  "db_four_users =
     \<lparr>products = sample_catalog, users = [user_a, user_gone, user_b, user_c],
      click_tracking = []\<rparr>"

definition db_one_user :: database where
  "db_one_user = \<lparr>products = sample_catalog, users = [user_a], click_tracking = []\<rparr>"

text \<open>Four users and no product.\<close>

definition db_no_deals :: database where
  "db_no_deals = \<lparr>products = [], users = [user_a, user_gone, user_b, user_c], click_tracking = []\<rparr>"

section \<open>Auxiliary facts\<close>

subsection \<open>Evaluation\<close>

text \<open>The definitions a concrete string, pass or selection is evaluated with.\<close>

lemmas str_defs = lower_def lower_char_def ascii_uppercase_def ascii_lowercase_def digits_def
  replace_space_def always_safe_def hex_digits_def percent_def quote_byte_def quote_def quote_plus_def
  asin_chars_def match_asin_here_def match_digits_here_def amazon_patterns_def extract_amazon_asin_def
  ebay_patterns_def extract_ebay_item_id_def str_int_def

lemmas low_defs = lower_def lower_char_def ascii_uppercase_def ascii_lowercase_def

lemmas pass_defs = update_product_prices_def stale_products_def query_filter_def stale_def
  timedelta_hours_def update_price_def simulate_price_change_def round2_def round_half_even_def

lemmas deals_defs = candidates_def query_filter_def qualifies_def refresh_daily_deals_def
  clear_daily_deals_def sample_ok_def randint_ok_def

subsection \<open>Strings and patterns\<close>

lemma py_in_iff: "py_in needle hay = (\<exists>pre suf. hay = pre @ needle @ suf)"
proof (induction hay)
  case Nil
  then show ?case by auto
next
  case (Cons c cs)
  show ?case
  proof
    assume "py_in needle (c # cs)"
    then consider "prefix needle (c # cs)" | "py_in needle cs" by auto
    then show "\<exists>pre suf. c # cs = pre @ needle @ suf"
    proof cases
      case 1
      then obtain suf where "c # cs = needle @ suf" by (auto simp: prefix_def)
      then have "c # cs = [] @ needle @ suf" by simp
      then show ?thesis by blast
    next
      case 2
      with Cons.IH obtain pre suf where "cs = pre @ needle @ suf" by auto
      then have "c # cs = (c # pre) @ needle @ suf" by simp
      then show ?thesis by blast
    qed
  next
    assume "\<exists>pre suf. c # cs = pre @ needle @ suf"
    then obtain pre suf where e: "c # cs = pre @ needle @ suf" by auto
    show "py_in needle (c # cs)"
    proof (cases pre)
      case Nil
      with e have "prefix needle (c # cs)" by (auto simp: prefix_def)
      then show ?thesis by simp
    next
      case (Cons a pre')
      with e have "cs = pre' @ needle @ suf" by simp
      with Cons.IH have "py_in needle cs" by blast
      then show ?thesis by simp
    qed
  qed
qed

lemma py_in_char: "py_in [c] s = (c \<in> set s)"
  by (induction s) auto

lemma py_in_append_left: "py_in needle s \<Longrightarrow> py_in needle (s @ t)"
  by (auto simp: py_in_iff) (metis append.assoc)

lemma py_in_separator: "py_in ''?'' (url @ separator url @ q)"
  by (auto simp: py_in_char separator_def)

text \<open>The loop over the patterns returns what the first pattern found returns.\<close>

lemma first_match_Some:
  "first_match ms url = Some a \<longleftrightarrow>
     (\<exists>n < length ms. re_search (ms ! n) url = Some a \<and> (\<forall>m < n. re_search (ms ! m) url = None))"
proof (induction ms)
  case Nil
  then show ?case by simp
next
  case (Cons f fs)
  show ?case
  proof (cases "re_search f url")
    case None
    have "(\<exists>n < length (f # fs). re_search ((f # fs) ! n) url = Some a
              \<and> (\<forall>m < n. re_search ((f # fs) ! m) url = None))
          = (\<exists>n < length fs. re_search (fs ! n) url = Some a
              \<and> (\<forall>m < n. re_search (fs ! m) url = None))" (is "?L = ?R")
    proof
      assume ?L
      then obtain n where n: "n < length (f # fs)" "re_search ((f # fs) ! n) url = Some a"
        "\<forall>m < n. re_search ((f # fs) ! m) url = None" by blast
      with None obtain n' where n': "n = Suc n'" by (cases n) auto
      from n n' have "n' < length fs" "re_search (fs ! n') url = Some a" by auto
      moreover from n(3) n' have "\<forall>m < n'. re_search (fs ! m) url = None" by auto
      ultimately show ?R by blast
    next
      assume ?R
      then obtain n where n: "n < length fs" "re_search (fs ! n) url = Some a"
        "\<forall>m < n. re_search (fs ! m) url = None" by blast
      have "\<forall>m < Suc n. re_search ((f # fs) ! m) url = None"
        using n(3) None by (auto simp: less_Suc_eq_0_disj)
      with n(1,2) show ?L by (intro exI [of _ "Suc n"]) auto
    qed
    with None Cons.IH show ?thesis by simp
  next
    case (Some g)
    have "(\<exists>n < length (f # fs). re_search ((f # fs) ! n) url = Some a
              \<and> (\<forall>m < n. re_search ((f # fs) ! m) url = None)) = (g = a)"
    proof
      assume "\<exists>n < length (f # fs). re_search ((f # fs) ! n) url = Some a
              \<and> (\<forall>m < n. re_search ((f # fs) ! m) url = None)"
      then obtain n where n: "re_search ((f # fs) ! n) url = Some a"
        "\<forall>m < n. re_search ((f # fs) ! m) url = None" by blast
      with Some have "n = 0" by (cases n) auto
      with n Some show "g = a" by simp
    next
      assume "g = a"
      with Some show "\<exists>n < length (f # fs). re_search ((f # fs) ! n) url = Some a
              \<and> (\<forall>m < n. re_search ((f # fs) ! m) url = None)"
        by (intro exI [of _ 0]) auto
    qed
    with Some show ?thesis by simp
  qed
qed

lemma first_match_None:
  "first_match ms url = None \<longleftrightarrow> (\<forall>n < length ms. re_search (ms ! n) url = None)"
  by (induction ms) (auto simp: less_Suc_eq_0_disj split: option.splits)

lemma re_search_Some: "re_search m s = Some g \<Longrightarrow> \<exists>t. m t = Some g"
  by (induction s) (auto split: option.splits)

lemma match_asin_here_Some:
  "match_asin_here pat s = Some g \<Longrightarrow> length g = 10 \<and> set g \<subseteq> set asin_chars"
  by (auto simp: match_asin_here_def Let_def list_all_iff split: if_splits)

lemma extract_amazon_asin_shape:
  assumes "extract_amazon_asin url = Some a"
  shows "length a = 10 \<and> set a \<subseteq> set asin_chars"
proof -
  from assms obtain n where "n < length (map match_asin_here amazon_patterns)"
      "re_search (map match_asin_here amazon_patterns ! n) url = Some a"
    unfolding extract_amazon_asin_def first_match_Some by blast
  then obtain t where "match_asin_here (amazon_patterns ! n) t = Some a"
    using re_search_Some by fastforce
  then show ?thesis by (rule match_asin_here_Some)
qed

subsection \<open>The builders\<close>

lemma quote_plus_utm_words:
  "quote_plus ''utm_source'' = Inr ''utm_source''"
  "quote_plus ''telegram_bot'' = Inr ''telegram_bot''"
  "quote_plus ''utm_medium'' = Inr ''utm_medium''"
  "quote_plus ''affiliate'' = Inr ''affiliate''"
  "quote_plus ''utm_campaign'' = Inr ''utm_campaign''"
  "quote_plus ''deals_bot'' = Inr ''deals_bot''"
  "quote_plus ''utm_content'' = Inr ''utm_content''"
  by (simp_all add: quote_plus_def quote_byte_def always_safe_def ascii_uppercase_def
        ascii_lowercase_def digits_def)

lemma urlencode_utm_params:
  "urlencode (utm_params store) =
     (case quote_plus (replace_space (lower store)) of
        Inl e \<Rightarrow> Inl e
      | Inr content \<Rightarrow>
          Inr (''utm_source=telegram_bot&utm_medium=affiliate&utm_campaign=deals_bot&utm_content=''
                 @ content))"
  by (simp add: utm_params_def quote_plus_utm_words split: sum.splits)

lemma generic_link_form:
  "generate_generic_tracking_link url store =
     (case quote_plus (replace_space (lower store)) of
        Inl e \<Rightarrow> Inl e
      | Inr content \<Rightarrow>
          Inr (url @ (if CHR ''?'' \<in> set url then ''&'' else ''?'')
                 @ ''utm_source=telegram_bot&utm_medium=affiliate&utm_campaign=deals_bot&utm_content=''
                 @ content))"
  by (simp add: generate_generic_tracking_link_def urlencode_utm_params separator_def py_in_char
        split: sum.splits)

lemma dispatch_Inl_returns_url:
  "dispatch cfg now url (lower sn) pid = Inl e \<Longrightarrow> generate_affiliate_link cfg now url sn pid = url"
  by (simp add: generate_affiliate_link_def)

lemma impact_link_unconfigured: "\<not> truthy_str publisher_id \<Longrightarrow> impact_link publisher_id base url = Inr url"
  by (simp add: impact_link_def)

subsection \<open>Queries\<close>

lemma sql_less_iff: "sql_less x v = (\<exists>t. x = Some t \<and> t < v)"
  by (cases x) auto

lemma sql_ge_iff: "sql_ge x v = (\<exists>t. x = Some t \<and> v \<le> t)"
  by (cases x) auto

lemma query_filter_set: "set (query_filter cond tbl) = {i. i < length tbl \<and> cond (tbl ! i)}"
  by (auto simp: query_filter_def)

lemma query_filter_distinct: "distinct (query_filter cond tbl)"
  by (simp add: query_filter_def)

subsection \<open>The price update loop\<close>

lemma stale_products_length: "length (stale_products now tbl) \<le> 50"
  by (simp add: stale_products_def)

lemma stale_products_distinct: "distinct (stale_products now tbl)"
  by (simp add: stale_products_def query_filter_distinct)

lemma stale_products_sound:
  "i \<in> set (stale_products now tbl) \<Longrightarrow> i < length tbl \<and> stale now (tbl ! i)"
  using set_take_subset [of 50 "query_filter (stale now) tbl"]
  by (auto simp: stale_products_def query_filter_set)

text \<open>
  The loop keeps the length of the table, leaves the rows it does not visit, and gives the
  \<open>m\<close>-th row it visits the result of the loop body on the row as it was before the pass.
\<close>

lemma price_loop_length:
  "length (fst (price_loop env k sel (tbl, c, ds))) = length tbl"
  by (induction sel arbitrary: k tbl c ds) (auto split: prod.splits)

lemma price_loop_other:
  "j \<notin> set sel \<Longrightarrow> fst (price_loop env k sel (tbl, c, ds)) ! j = tbl ! j"
  by (induction sel arbitrary: k tbl c ds) (auto split: prod.splits)

lemma price_loop_nth:
  "distinct sel \<Longrightarrow> \<forall>i\<in>set sel. i < length tbl \<Longrightarrow> m < length sel \<Longrightarrow>
   fst (price_loop env k sel (tbl, c, ds)) ! (sel ! m)
     = fst (update_price (stamps env (k + m)) (draws env (k + m)) (sel ! m) (tbl ! (sel ! m)))"
proof (induction sel arbitrary: k tbl c ds m)
  case Nil
  then show ?case by simp
next
  case (Cons i rest)
  obtain p' u d where upd: "update_price (stamps env k) (draws env k) i (tbl ! i) = (p', u, d)"
    by (cases "update_price (stamps env k) (draws env k) i (tbl ! i)") auto
  show ?case
  proof (cases m)
    case 0
    from Cons.prems have "i \<notin> set rest" "i < length tbl" by auto
    then show ?thesis
      using upd 0 by (simp add: price_loop_other)
  next
    case (Suc m')
    from Cons.prems Suc have m': "m' < length rest" and d: "distinct rest"
      and r: "\<forall>j\<in>set rest. j < length (tbl[i := p'])" and ne: "rest ! m' \<noteq> i"
      by auto
    show ?thesis
      using Cons.IH [OF d r m', of "Suc k"] upd Suc ne by simp
  qed
qed

lemma price_loop_count:
  "fst (snd (price_loop env k sel (tbl, c, ds))) \<le> c + length sel"
proof (induction sel arbitrary: k tbl c ds)
  case Nil
  then show ?case by simp
next
  case (Cons i rest)
  obtain p' u d where upd: "update_price (stamps env k) (draws env k) i (tbl ! i) = (p', u, d)"
    by (cases "update_price (stamps env k) (draws env k) i (tbl ! i)") auto
  show ?case
    using Cons.IH [of "Suc k" "tbl[i := p']" "if u then c + 1 else c"
                      "case d of None \<Rightarrow> ds | Some x \<Rightarrow> ds @ [x]"] upd
    by (auto split: if_splits)
qed

lemma update_product_prices_nth:
  assumes "k < length (stale_products (utcnow env) tbl)"
  shows "fst (update_product_prices env tbl) ! (stale_products (utcnow env) tbl ! k)
     = fst (update_price (stamps env k) (draws env k) (stale_products (utcnow env) tbl ! k)
              (tbl ! (stale_products (utcnow env) tbl ! k)))"
proof -
  have "\<forall>i \<in> set (stale_products (utcnow env) tbl). i < length tbl"
    using stale_products_sound by blast
  from price_loop_nth [OF stale_products_distinct this assms, of env 0 0 "[]"]
  show ?thesis by (simp add: update_product_prices_def)
qed

text \<open>The loop body: a price that changes was a number other than zero.\<close>

lemma simulate_changed:
  "simulate_price_change d pr \<noteq> pr \<Longrightarrow>
     \<exists>old new. pr = Some old \<and> old \<noteq> 0 \<and> simulate_price_change d pr = Some new \<and> new \<noteq> old"
  by (auto simp: simulate_price_change_def Let_def split: option.splits if_splits)

lemma update_price_unchanged:
  "simulate_price_change d (price p) = price p \<Longrightarrow> update_price stamp d i p = (p, False, None)"
  by (auto simp: update_price_def split: option.splits)

lemma update_price_changed:
  assumes "price p = Some old" "simulate_price_change d (price p) = Some new" "new \<noteq> old"
  shows "price (fst (update_price stamp d i p)) = Some new"
    and "original_price (fst (update_price stamp d i p)) = original_price p"
    and "original_price p = Some orig \<Longrightarrow> 0 < orig \<Longrightarrow>
           discount_percentage (fst (update_price stamp d i p))
             = (if new < orig then Some ((orig - new) / orig * 100) else None)"
    and "original_price p = None \<or> original_price p = Some 0 \<Longrightarrow>
           discount_percentage (fst (update_price stamp d i p)) = discount_percentage p"
  using assms
  by (auto simp: update_price_def Let_def divide_simps split: option.splits)

text \<open>A price drop is appended exactly when the new price is strictly below nine tenths of the old.\<close>

lemma update_price_drop_iff:
  "snd (snd (update_price stamp d i p)) \<noteq> None \<longleftrightarrow>
     (\<exists>old new. price p = Some old \<and> simulate_price_change d (price p) = Some new
        \<and> new \<noteq> old \<and> old \<noteq> 0 \<and> new < old * 0.9)"
  by (auto simp: update_price_def Let_def split: option.splits)

subsection \<open>The daily-deal reselection\<close>

lemma insort_key_agree:
  "f x = g x \<Longrightarrow> \<forall>y \<in> set ys. f y = g y \<Longrightarrow> insort_key f x ys = insort_key g x ys"
  by (induction ys) auto

lemma sort_key_agree:
  "\<forall>x \<in> set xs. f x = g x \<Longrightarrow> sort_key f xs = sort_key g xs"
  by (induction xs) (auto intro: insort_key_agree)

lemma clear_daily_deals_length: "length (clear_daily_deals now tbl) = length tbl"
  by (simp add: clear_daily_deals_def)

lemma clear_daily_deals_nth:
  "i < length tbl \<Longrightarrow>
   clear_daily_deals now tbl ! i =
     (if is_daily_deal (tbl ! i) = Some True
      then (tbl ! i)\<lparr>is_daily_deal := Some False, updated_at := Some now\<rparr> else tbl ! i)"
  by (simp add: clear_daily_deals_def)

lemma clear_daily_deals_not_flagged:
  "i < length tbl \<Longrightarrow> is_daily_deal (clear_daily_deals now tbl ! i) \<noteq> Some True"
  by (simp add: clear_daily_deals_nth)

lemma clear_daily_deals_qualifies:
  "i < length tbl \<Longrightarrow> qualifies (clear_daily_deals now tbl ! i) = qualifies (tbl ! i)"
  by (simp add: clear_daily_deals_nth qualifies_def)

lemma clear_daily_deals_discount:
  "i < length tbl \<Longrightarrow>
   discount_percentage (clear_daily_deals now tbl ! i) = discount_percentage (tbl ! i)"
  by (simp add: clear_daily_deals_nth)

lemma candidates_clear: "candidates (clear_daily_deals now tbl) = candidates tbl"
proof -
  have q: "query_filter qualifies (clear_daily_deals now tbl) = query_filter qualifies tbl"
    unfolding query_filter_def clear_daily_deals_length
    by (rule filter_cong) (auto simp: clear_daily_deals_qualifies)
  have "sort_key (\<lambda>i. desc_key (discount_percentage (clear_daily_deals now tbl ! i)))
          (query_filter qualifies tbl)
        = sort_key (\<lambda>i. desc_key (discount_percentage (tbl ! i))) (query_filter qualifies tbl)"
    by (rule sort_key_agree) (auto simp: query_filter_set clear_daily_deals_discount)
  with q show ?thesis by (simp add: candidates_def)
qed

lemma candidates_length: "length (candidates tbl) \<le> 20"
  by (simp add: candidates_def)

lemma candidates_distinct: "distinct (candidates tbl)"
  by (simp add: candidates_def query_filter_distinct)

lemma candidates_qualify:
  "i \<in> set (candidates tbl) \<Longrightarrow> i < length tbl \<and> qualifies (tbl ! i)"
  by (auto simp: candidates_def query_filter_set dest!: in_set_takeD)

text \<open>No qualifying product left out of the candidates has a larger discount than a candidate.\<close>

lemma candidates_top_ranked:
  assumes i: "i \<in> set (candidates tbl)"
    and j: "j < length tbl" "qualifies (tbl ! j)" "j \<notin> set (candidates tbl)"
  shows "desc_key (discount_percentage (tbl ! i)) \<le> desc_key (discount_percentage (tbl ! j))"
proof -
  let ?key = "\<lambda>i. desc_key (discount_percentage (tbl ! i))"
  let ?sorted = "sort_key ?key (query_filter qualifies tbl)"
  have "j \<in> set ?sorted" using j by (simp add: query_filter_set)
  then have "j \<in> set (take 20 ?sorted) \<union> set (drop 20 ?sorted)"
    by (metis append_take_drop_id set_append)
  with j(3) have jd: "j \<in> set (drop 20 ?sorted)" by (simp add: candidates_def)
  have "sorted (map ?key (take 20 ?sorted) @ map ?key (drop 20 ?sorted))"
    unfolding map_append [symmetric] append_take_drop_id by (rule sorted_sort_key)
  then have "\<forall>x \<in> set (map ?key (take 20 ?sorted)). \<forall>y \<in> set (map ?key (drop 20 ?sorted)). x \<le> y"
    unfolding sorted_append by (elim conjE)
  then have "\<forall>a \<in> set (take 20 ?sorted). \<forall>b \<in> set (drop 20 ?sorted). ?key a \<le> ?key b"
    by simp
  with i jd show ?thesis by (simp add: candidates_def)
qed

lemma mark_loop_length: "length (mark_loop clock k sel tbl) = length tbl"
  by (induction sel arbitrary: k tbl) auto

lemma mark_loop_other: "j \<notin> set sel \<Longrightarrow> mark_loop clock k sel tbl ! j = tbl ! j"
  by (induction sel arbitrary: k tbl) auto

lemma mark_loop_flag:
  "j < length tbl \<Longrightarrow>
   is_daily_deal (mark_loop clock k sel tbl ! j)
     = (if j \<in> set sel then Some True else is_daily_deal (tbl ! j))"
proof (induction sel arbitrary: k tbl)
  case Nil
  then show ?case by simp
next
  case (Cons i rest)
  then show ?case by (cases "i = j") auto
qed

lemma sampled_deals:
  assumes "sample_ok pos (length cands) k" "distinct cands"
  shows "distinct (map (\<lambda>j. cands ! j) pos)"
    and "set (map (\<lambda>j. cands ! j) pos) \<subseteq> set cands"
    and "length (map (\<lambda>j. cands ! j) pos) = k"
proof -
  from assms(1) have d: "distinct pos" and r: "\<forall>j \<in> set pos. j < length cands"
    and l: "length pos = k"
    by (auto simp: sample_ok_def list_all_iff)
  from assms(2) r have "inj_on (nth cands) (set pos)" by (rule inj_on_nth)
  with d show "distinct (map (\<lambda>j. cands ! j) pos)" by (simp add: distinct_map)
  from r show "set (map (\<lambda>j. cands ! j) pos) \<subseteq> set cands" by auto
  from l show "length (map (\<lambda>j. cands ! j) pos) = k" by simp
qed

lemma refresh_daily_deals_parts:
  "snd (refresh_daily_deals env tbl)
     = map (\<lambda>j. candidates tbl ! j)
         (sample env (length (candidates tbl)) (min (randint env) (length (candidates tbl))))"
  "fst (refresh_daily_deals env tbl)
     = mark_loop (marked_at env) 0 (snd (refresh_daily_deals env tbl))
         (clear_daily_deals (cleared_at env) tbl)"
  by (simp_all add: refresh_daily_deals_def Let_def candidates_clear)

lemma qualifies_iff:
  "qualifies p \<longleftrightarrow>
     is_active p = Some True \<and> (\<exists>d. discount_percentage p = Some d \<and> 15 \<le> d)
     \<and> (\<exists>r. rating p = Some r \<and> 4 \<le> r)"
  by (simp add: qualifies_def sql_ge_iff)

lemma sample_catalog_candidates: "candidates sample_catalog = [2, 5, 1]"
  by (simp add: deals_defs sample_catalog_def)

lemma large_catalog_candidates: "length (candidates large_catalog) = 13"
  by (simp add: deals_defs large_catalog_def)

subsection \<open>The notification loop\<close>

lemma upt_0_Suc: "[0..<Suc n] = 0 # map Suc [0..<n]"
  by (simp add: upt_conv_Cons map_Suc_upt del: upt_Suc)

lemma count_upt_Suc:
  "length (filter P [0..<Suc n]) = (if P 0 then 1 else 0) + length (filter (\<lambda>j. P (Suc j)) [0..<n])"
  unfolding upt_0_Suc by (simp add: filter_map comp_def)

text \<open>
  The loop in closed form when no call raises an exception other than a
  \<open>TelegramError\<close>, and its result when one does.
\<close>

lemma notify_loop_closed:
  "\<forall>j < length us. \<forall>m. outcome (k + j) \<noteq> OtherException m \<Longrightarrow>
   notify_loop outcome k us st =
     Inr \<lparr>served = served st @
             map (\<lambda>j. case outcome (k + j) of
                         TelegramError msg \<Rightarrow> on_telegram_error msg (us ! j)
                       | _ \<Rightarrow> us ! j) [0..<length us],
          sent_count = sent_count st + length (filter (\<lambda>j. outcome (k + j) = Sent) [0..<length us]),
          attempts = attempts st @ map telegram_id us,
          logged = logged st @
             concat (map (\<lambda>j. case outcome (k + j) of TelegramError msg \<Rightarrow> [msg] | _ \<Rightarrow> [])
                       [0..<length us])\<rparr>"
proof (induction us arbitrary: k st)
  case Nil
  then show ?case by simp
next
  case (Cons u rest)
  have rest: "\<forall>j < length rest. \<forall>m. outcome (Suc k + j) \<noteq> OtherException m"
    using Cons.prems by auto
  have here: "\<forall>m. outcome k \<noteq> OtherException m"
    using Cons.prems by force
  show ?case
  proof (cases "outcome k")
    case Sent
    then show ?thesis
      using Cons.IH [OF rest]
      by (simp add: map_upt_Suc count_upt_Suc del: upt_Suc cong: send_result.case_cong)
  next
    case (TelegramError msg)
    then show ?thesis
      using Cons.IH [OF rest]
      by (simp add: map_upt_Suc count_upt_Suc del: upt_Suc cong: send_result.case_cong)
  next
    case (OtherException msg)
    with here show ?thesis by simp
  qed
qed

lemma notify_loop_raises:
  "j < length us \<Longrightarrow> outcome (k + j) = OtherException m \<Longrightarrow>
   \<forall>i < j. \<forall>m'. outcome (k + i) \<noteq> OtherException m' \<Longrightarrow>
   \<exists>us'. notify_loop outcome k us st = Inl (m, us')"
proof (induction us arbitrary: k st j)
  case Nil
  then show ?case by simp
next
  case (Cons u rest)
  show ?case
  proof (cases j)
    case 0
    with Cons.prems show ?thesis by simp
  next
    case (Suc j')
    with Cons.prems have j': "j' < length rest" and o: "outcome (Suc k + j') = OtherException m"
      and before: "\<forall>i < j'. \<forall>m'. outcome (Suc k + i) \<noteq> OtherException m'"
      by auto
    from Cons.prems(3) Suc have here: "\<forall>m'. outcome k \<noteq> OtherException m'"
      by force
    show ?thesis
      using Cons.IH [OF j' o before] here
      by (cases "outcome k") (simp_all add: Let_def)
  qed
qed


text \<open>What the loop gives when every failed call fails with a \<open>TelegramError\<close>.\<close>

lemma notify_loop_result:
  assumes "\<forall>j < length recipients. \<forall>m. outcome j \<noteq> OtherException m"
  shows "\<exists>st. notify_loop outcome 0 recipients start = Inr st
        \<and> sent_count st = length (filter (\<lambda>j. outcome j = Sent) [0..<length recipients])
        \<and> attempts st = map telegram_id recipients
        \<and> logged st =
            concat (map (\<lambda>j. case outcome j of TelegramError msg \<Rightarrow> [msg] | _ \<Rightarrow> [])
                      [0..<length recipients])
        \<and> length (served st) = length recipients
        \<and> (\<forall>j < length recipients.
              served st ! j =
                (case outcome j of
                   TelegramError msg \<Rightarrow>
                     if py_in ''bot was blocked'' (lower msg)
                     then (recipients ! j)\<lparr>user_is_active := Some False\<rparr>
                     else recipients ! j
                 | _ \<Rightarrow> recipients ! j))"
proof -
  define st where
    "st = \<lparr>served = map (\<lambda>j. case outcome j of
                                TelegramError msg \<Rightarrow> on_telegram_error msg (recipients ! j)
                              | _ \<Rightarrow> recipients ! j) [0..<length recipients],
           sent_count = length (filter (\<lambda>j. outcome j = Sent) [0..<length recipients]),
           attempts = map telegram_id recipients,
           logged = concat (map (\<lambda>j. case outcome j of TelegramError msg \<Rightarrow> [msg] | _ \<Rightarrow> [])
                              [0..<length recipients])\<rparr>"
  have loop: "notify_loop outcome 0 recipients start = Inr st"
    using notify_loop_closed [of recipients outcome 0 start] assms
    by (simp add: st_def start_def)
  have each: "\<forall>j < length recipients.
              served st ! j =
                (case outcome j of
                   TelegramError msg \<Rightarrow>
                     if py_in ''bot was blocked'' (lower msg)
                     then (recipients ! j)\<lparr>user_is_active := Some False\<rparr>
                     else recipients ! j
                 | _ \<Rightarrow> recipients ! j)"
    by (auto simp: st_def on_telegram_error_def split: send_result.splits)
  show ?thesis
  proof (intro exI [of _ st] conjI)
    show "notify_loop outcome 0 recipients start = Inr st" by (rule loop)
    show "\<forall>j < length recipients.
              served st ! j =
                (case outcome j of
                   TelegramError msg \<Rightarrow>
                     if py_in ''bot was blocked'' (lower msg)
                     then (recipients ! j)\<lparr>user_is_active := Some False\<rparr>
                     else recipients ! j
                 | _ \<Rightarrow> recipients ! j)" by (rule each)
  qed (simp_all add: st_def)
qed

text \<open>
  The two recipient queries on the attributes of \<open>User\<close>: the one of the daily-deals
  pass returns the active users; the one of the price-drop pass names
  \<open>notifications_enabled\<close> and raises, so that this pass reaches the handler before
  its loop, whatever the database holds.
\<close>

lemma filter_by_is_active: "filter_by [(''is_active'', True)] tbl = Inr (active_users tbl)"
  by (simp add: filter_by_def user_attributes_def user_bool_def active_users_def)

lemma filter_by_notifications_enabled:
  "filter_by [(''is_active'', True), (''notifications_enabled'', True)] tbl = Inl InvalidRequestError"
  by (simp add: filter_by_def user_attributes_def)

lemma price_drop_alert_query_raises: "send_price_drop_alert outcome db = Returned [] None"
  by (simp add: send_price_drop_alert_def filter_by_notifications_enabled)

lemma sample_catalog_todays_deals: "todays_deals sample_catalog = [0, 2, 5]"
  by (simp add: todays_deals_def query_filter_def sample_catalog_def)

lemma db_four_users_active: "active_users (users db_four_users) = [user_a, user_b, user_c]"
  by (simp add: active_users_def db_four_users_def user_a_def user_b_def user_c_def user_gone_def)


section \<open>The Amazon builder\<close>

text \<open>
  Claim C2. The Amazon builder tries its identifier patterns in order and the first one
  that is found anywhere in the URL wins; the identifier is ten characters of
  \<open>A-Z0-9\<close>. With an identifier found (and the associate tag set) the link is
  \<open>https://www.amazon.com/dp/<id>?tag=<tag>\<close> followed by the fixed parameters
  \<open>&linkCode=ogi&th=1&psc=1\<close>; for \<open>https://www.amazon.com/dp/B0CHX1W1XY?x=1\<close> the
  extractor returns \<open>B0CHX1W1XY\<close>; with no pattern found and no product id the link is
  the URL with \<open>tag=<tag>\<close> appended after \<open>&\<close> if the URL holds a \<open>?\<close> and after
  \<open>?\<close> otherwise.
\<close>

theorem amazon_link_by_first_matching_pattern:
  "(\<forall>a. extract_amazon_asin url = Some a \<longleftrightarrow>
        (\<exists>n < length amazon_patterns.
            re_search (match_asin_here (amazon_patterns ! n)) url = Some a
            \<and> (\<forall>m < n. re_search (match_asin_here (amazon_patterns ! m)) url = None)))
   \<and> (\<forall>a. extract_amazon_asin url = Some a \<longrightarrow> length a = 10 \<and> set a \<subseteq> set asin_chars)
   \<and> extract_amazon_asin ''https://www.amazon.com/dp/B0CHX1W1XY?x=1'' = Some ''B0CHX1W1XY''
   \<and> (\<forall>tag a. AMAZON_ASSOCIATE_TAG cfg = Some tag \<and> tag \<noteq> [] \<and> extract_amazon_asin url = Some a \<longrightarrow>
          generate_amazon_link cfg url pid
            = ''https://www.amazon.com/dp/'' @ a @ ''?tag='' @ tag @ ''&linkCode=ogi&th=1&psc=1'')
   \<and> (\<forall>tag. AMAZON_ASSOCIATE_TAG cfg = Some tag \<and> tag \<noteq> [] \<and> extract_amazon_asin url = None \<longrightarrow>
          generate_amazon_link cfg url None
            = url @ (if CHR ''?'' \<in> set url then ''&'' else ''?'') @ ''tag='' @ tag)"
proof (intro conjI allI impI)
  fix a
  show "extract_amazon_asin url = Some a \<longleftrightarrow>
        (\<exists>n < length amazon_patterns.
            re_search (match_asin_here (amazon_patterns ! n)) url = Some a
            \<and> (\<forall>m < n. re_search (match_asin_here (amazon_patterns ! m)) url = None))"
    unfolding extract_amazon_asin_def first_match_Some by auto
next
  fix a assume "extract_amazon_asin url = Some a"
  then show "length a = 10" "set a \<subseteq> set asin_chars"
    using extract_amazon_asin_shape by blast+
next
  show "extract_amazon_asin ''https://www.amazon.com/dp/B0CHX1W1XY?x=1'' = Some ''B0CHX1W1XY''"
    by (simp add: str_defs)
next
  fix tag a
  assume h: "AMAZON_ASSOCIATE_TAG cfg = Some tag \<and> tag \<noteq> [] \<and> extract_amazon_asin url = Some a"
  then have "a \<noteq> []" using extract_amazon_asin_shape [of url a] by auto
  with h show "generate_amazon_link cfg url pid
            = ''https://www.amazon.com/dp/'' @ a @ ''?tag='' @ tag @ ''&linkCode=ogi&th=1&psc=1''"
    by (simp add: generate_amazon_link_def py_or_def)
next
  fix tag
  assume "AMAZON_ASSOCIATE_TAG cfg = Some tag \<and> tag \<noteq> [] \<and> extract_amazon_asin url = None"
  then show "generate_amazon_link cfg url None
            = url @ (if CHR ''?'' \<in> set url then ''&'' else ''?'') @ ''tag='' @ tag"
    by (simp add: generate_amazon_link_def py_or_def separator_def py_in_char)
qed

theorem amazon_link_witness:
  "extract_amazon_asin ''https://www.amazon.com/gp/product/B0CHX1W1XY/dp/ABCDEFGHIJ'' = Some ''ABCDEFGHIJ''
   \<and> generate_amazon_link cfg_amazon ''https://www.amazon.com/gp/product/B0CHX1W1XY/dp/ABCDEFGHIJ'' None
       = ''https://www.amazon.com/dp/ABCDEFGHIJ?tag=yourtag-20&linkCode=ogi&th=1&psc=1''
   \<and> extract_amazon_asin ''https://www.amazon.com/s?k=kettle'' = None
   \<and> generate_amazon_link cfg_amazon ''https://www.amazon.com/s?k=kettle'' None
       = ''https://www.amazon.com/s?k=kettle&tag=yourtag-20''"
proof -
  have e1: "extract_amazon_asin ''https://www.amazon.com/gp/product/B0CHX1W1XY/dp/ABCDEFGHIJ'' = Some ''ABCDEFGHIJ''"
    by (simp add: str_defs)
  have e2: "extract_amazon_asin ''https://www.amazon.com/s?k=kettle'' = None"
    by (simp add: str_defs)
  have t: "AMAZON_ASSOCIATE_TAG cfg_amazon = Some ''yourtag-20''"
    by (simp add: cfg_amazon_def)
  show ?thesis
    using amazon_link_by_first_matching_pattern
            [of "''https://www.amazon.com/gp/product/B0CHX1W1XY/dp/ABCDEFGHIJ''" cfg_amazon None]
          amazon_link_by_first_matching_pattern
            [of "''https://www.amazon.com/s?k=kettle''" cfg_amazon None]
          e1 e2 t
    by simp
qed


text \<open>
  Claim C10. With the associate tag set, a URL in which no pattern is found and a
  non-empty product id give the canonical link for that product id; the URL with the tag
  appended is returned only when no pattern is found and the product id is \<open>None\<close> or
  empty. In every other case the link is the canonical one.
\<close>

theorem amazon_link_uses_supplied_product_id:
  "AMAZON_ASSOCIATE_TAG cfg = Some tag \<and> tag \<noteq> [] \<longrightarrow>
     generate_amazon_link cfg url pid =
       (case extract_amazon_asin url of
          Some a \<Rightarrow> ''https://www.amazon.com/dp/'' @ a @ ''?tag='' @ tag @ ''&linkCode=ogi&th=1&psc=1''
        | None \<Rightarrow>
            (case pid of
               Some p \<Rightarrow>
                 if p \<noteq> []
                 then ''https://www.amazon.com/dp/'' @ p @ ''?tag='' @ tag @ ''&linkCode=ogi&th=1&psc=1''
                 else url @ (if CHR ''?'' \<in> set url then ''&'' else ''?'') @ ''tag='' @ tag
             | None \<Rightarrow> url @ (if CHR ''?'' \<in> set url then ''&'' else ''?'') @ ''tag='' @ tag))"
proof (intro impI)
  assume h: "AMAZON_ASSOCIATE_TAG cfg = Some tag \<and> tag \<noteq> []"
  show "generate_amazon_link cfg url pid =
       (case extract_amazon_asin url of
          Some a \<Rightarrow> ''https://www.amazon.com/dp/'' @ a @ ''?tag='' @ tag @ ''&linkCode=ogi&th=1&psc=1''
        | None \<Rightarrow>
            (case pid of
               Some p \<Rightarrow>
                 if p \<noteq> []
                 then ''https://www.amazon.com/dp/'' @ p @ ''?tag='' @ tag @ ''&linkCode=ogi&th=1&psc=1''
                 else url @ (if CHR ''?'' \<in> set url then ''&'' else ''?'') @ ''tag='' @ tag
             | None \<Rightarrow> url @ (if CHR ''?'' \<in> set url then ''&'' else ''?'') @ ''tag='' @ tag))"
  proof (cases "extract_amazon_asin url")
    case None
    with h show ?thesis
      by (cases pid) (simp_all add: generate_amazon_link_def py_or_def separator_def py_in_char)
  next
    case (Some a)
    then have "a \<noteq> []" using extract_amazon_asin_shape [of url a] by auto
    with h Some show ?thesis
      by (simp add: generate_amazon_link_def py_or_def)
  qed
qed

theorem amazon_link_product_id_witness:
  "generate_amazon_link cfg_amazon ''https://www.amazon.com/s?k=kettle'' (Some ''B00FLYWNYQ'')
     = ''https://www.amazon.com/dp/B00FLYWNYQ?tag=yourtag-20&linkCode=ogi&th=1&psc=1''
   \<and> generate_amazon_link cfg_amazon ''https://www.amazon.com/s?k=kettle'' (Some [])
     = ''https://www.amazon.com/s?k=kettle&tag=yourtag-20''"
proof -
  have e: "extract_amazon_asin ''https://www.amazon.com/s?k=kettle'' = None"
    by (simp add: str_defs)
  have t: "AMAZON_ASSOCIATE_TAG cfg_amazon = Some ''yourtag-20''"
    by (simp add: cfg_amazon_def)
  show ?thesis
    using amazon_link_uses_supplied_product_id
            [of cfg_amazon "''yourtag-20''" "''https://www.amazon.com/s?k=kettle''" "Some ''B00FLYWNYQ''"]
          amazon_link_uses_supplied_product_id
            [of cfg_amazon "''yourtag-20''" "''https://www.amazon.com/s?k=kettle''" "Some []"]
          e t
    by simp
qed


section \<open>The generic tracking link\<close>

text \<open>
  Claim C7. The generic builder appends \<open>utm_source\<close>, \<open>utm_medium\<close>,
  \<open>utm_campaign\<close> and \<open>utm_content\<close> (the store name in lower case with spaces
  replaced by underscores, percent-encoded as a query value) after \<open>&\<close> if the URL holds
  a \<open>?\<close> and after \<open>?\<close> otherwise. It is not idempotent: whenever it returns a link,
  applying it to that link appends the same parameters once more, so the second result
  differs from the first.
\<close>

theorem generic_tracking_link_is_not_idempotent:
  "generate_generic_tracking_link url store =
     (case quote_plus (replace_space (lower store)) of
        Inl e \<Rightarrow> Inl e
      | Inr content \<Rightarrow>
          Inr (url @ (if CHR ''?'' \<in> set url then ''&'' else ''?'')
                 @ ''utm_source=telegram_bot&utm_medium=affiliate&utm_campaign=deals_bot&utm_content=''
                 @ content))
   \<and> (\<forall>r. generate_generic_tracking_link url store = Inr r \<longrightarrow>
          (\<exists>q. r = url @ (if CHR ''?'' \<in> set url then ''&'' else ''?'') @ q
               \<and> generate_generic_tracking_link r store = Inr (r @ ''&'' @ q))
          \<and> generate_generic_tracking_link r store \<noteq> Inr r)
   \<and> (\<exists>u s r r2. generate_generic_tracking_link u s = Inr r
          \<and> generate_generic_tracking_link r s = Inr r2 \<and> r2 \<noteq> r)"
proof (intro conjI allI impI)
  show "generate_generic_tracking_link url store =
     (case quote_plus (replace_space (lower store)) of
        Inl e \<Rightarrow> Inl e
      | Inr content \<Rightarrow>
          Inr (url @ (if CHR ''?'' \<in> set url then ''&'' else ''?'')
                 @ ''utm_source=telegram_bot&utm_medium=affiliate&utm_campaign=deals_bot&utm_content=''
                 @ content))"
    by (rule generic_link_form)
next
  fix r assume r: "generate_generic_tracking_link url store = Inr r"
  then obtain q where q: "urlencode (utm_params store) = Inr q" "r = url @ separator url @ q"
    by (auto simp: generate_generic_tracking_link_def split: sum.splits)
  have "py_in ''?'' r" unfolding q(2) by (rule py_in_separator)
  then have twice: "generate_generic_tracking_link r store = Inr (r @ ''&'' @ q)"
    using q(1) by (simp add: generate_generic_tracking_link_def separator_def)
  from q(2) twice
  show "\<exists>q. r = url @ (if CHR ''?'' \<in> set url then ''&'' else ''?'') @ q
               \<and> generate_generic_tracking_link r store = Inr (r @ ''&'' @ q)"
    by (auto simp: separator_def py_in_char)
  from twice show "generate_generic_tracking_link r store \<noteq> Inr r" by simp
next
  have one: "generate_generic_tracking_link ''https://www.nike.com/t/shoe'' ''nike''
               = Inr ''https://www.nike.com/t/shoe?utm_source=telegram_bot&utm_medium=affiliate&utm_campaign=deals_bot&utm_content=nike''"
    by (simp add: generic_link_form str_defs)
  have two: "generate_generic_tracking_link ''https://www.nike.com/t/shoe?utm_source=telegram_bot&utm_medium=affiliate&utm_campaign=deals_bot&utm_content=nike'' ''nike''
               = Inr ''https://www.nike.com/t/shoe?utm_source=telegram_bot&utm_medium=affiliate&utm_campaign=deals_bot&utm_content=nike&utm_source=telegram_bot&utm_medium=affiliate&utm_campaign=deals_bot&utm_content=nike''"
    by (simp add: generic_link_form str_defs)
  show "\<exists>u s r r2. generate_generic_tracking_link u s = Inr r
          \<and> generate_generic_tracking_link r s = Inr r2 \<and> r2 \<noteq> r"
    using one two by (intro exI conjI) (assumption, assumption, simp)
qed

theorem generic_tracking_link_witness:
  "generate_generic_tracking_link ''https://www.hm.com/p/1?c=2'' ''H&M Home''
     = Inr ''https://www.hm.com/p/1?c=2&utm_source=telegram_bot&utm_medium=affiliate&utm_campaign=deals_bot&utm_content=h%26m_home''
   \<and> generate_generic_tracking_link
         ''https://www.hm.com/p/1?c=2&utm_source=telegram_bot&utm_medium=affiliate&utm_campaign=deals_bot&utm_content=h%26m_home''
         ''H&M Home''
     \<noteq> Inr ''https://www.hm.com/p/1?c=2&utm_source=telegram_bot&utm_medium=affiliate&utm_campaign=deals_bot&utm_content=h%26m_home''"
proof -
  have q: "quote_plus (replace_space (lower ''H&M Home'')) = Inr ''h%26m_home''"
    by (simp add: str_defs)
  show ?thesis
    using generic_tracking_link_is_not_idempotent [of "''https://www.hm.com/p/1?c=2''" "''H&M Home''"] q
    by simp
qed


section \<open>The dispatcher\<close>

text \<open>
  Claim C3, as amended. \<open>generate_affiliate_link\<close> returns a string for all strings
  (it is a total function). When the credential of the network chosen by the store name is
  missing it returns the original URL, and so it does when an exception leaves a
  builder. For a store name that holds no known network name it returns the original URL
  with the UTM parameters appended (the original URL when the store name cannot be
  encoded). A URL in which no identifier is found is no failure: with the Amazon tag set,
  the Amazon builder then returns the URL with \<open>tag=<tag>\<close> appended, not the original
  URL.
\<close>

theorem affiliate_link_fallbacks:
  "(py_in ''amazon'' (lower sn) \<and> \<not> truthy_str (AMAZON_ASSOCIATE_TAG cfg)
      \<longrightarrow> generate_affiliate_link cfg now url sn pid = url)
   \<and> (\<not> py_in ''amazon'' (lower sn) \<and> py_in ''ebay'' (lower sn)
        \<and> \<not> truthy_str (EBAY_CAMPAIGN_ID cfg)
      \<longrightarrow> generate_affiliate_link cfg now url sn pid = url)
   \<and> (\<not> py_in ''amazon'' (lower sn) \<and> \<not> py_in ''ebay'' (lower sn)
        \<and> py_in ''aliexpress'' (lower sn) \<and> \<not> truthy_str (ALIEXPRESS_TRACKING_ID cfg)
      \<longrightarrow> generate_affiliate_link cfg now url sn pid = url)
   \<and> (\<not> py_in ''amazon'' (lower sn) \<and> \<not> py_in ''ebay'' (lower sn)
        \<and> \<not> py_in ''aliexpress'' (lower sn) \<and> py_in ''walmart'' (lower sn)
        \<and> \<not> truthy_str (WALMART_PUBLISHER_ID cfg)
      \<longrightarrow> generate_affiliate_link cfg now url sn pid = url)
   \<and> (\<not> py_in ''amazon'' (lower sn) \<and> \<not> py_in ''ebay'' (lower sn)
        \<and> \<not> py_in ''aliexpress'' (lower sn) \<and> \<not> py_in ''walmart'' (lower sn)
        \<and> py_in ''target'' (lower sn) \<and> \<not> truthy_str (TARGET_PUBLISHER_ID cfg)
      \<longrightarrow> generate_affiliate_link cfg now url sn pid = url)
   \<and> (\<not> py_in ''amazon'' (lower sn) \<and> \<not> py_in ''ebay'' (lower sn)
        \<and> \<not> py_in ''aliexpress'' (lower sn) \<and> \<not> py_in ''walmart'' (lower sn)
        \<and> \<not> py_in ''target'' (lower sn)
        \<and> (py_in ''bestbuy'' (lower sn) \<or> py_in ''best buy'' (lower sn))
        \<and> \<not> truthy_str (BESTBUY_PUBLISHER_ID cfg)
      \<longrightarrow> generate_affiliate_link cfg now url sn pid = url)
   \<and> (\<forall>e. dispatch cfg now url (lower sn) pid = Inl e
      \<longrightarrow> generate_affiliate_link cfg now url sn pid = url)
   \<and> (\<not> py_in ''amazon'' (lower sn) \<and> \<not> py_in ''ebay'' (lower sn)
        \<and> \<not> py_in ''aliexpress'' (lower sn) \<and> \<not> py_in ''walmart'' (lower sn)
        \<and> \<not> py_in ''target'' (lower sn) \<and> \<not> py_in ''bestbuy'' (lower sn)
        \<and> \<not> py_in ''best buy'' (lower sn)
      \<longrightarrow> generate_affiliate_link cfg now url sn pid =
            (case quote_plus (replace_space (lower (lower sn))) of
               Inl e \<Rightarrow> url
             | Inr content \<Rightarrow>
                 url @ (if CHR ''?'' \<in> set url then ''&'' else ''?'')
                   @ ''utm_source=telegram_bot&utm_medium=affiliate&utm_campaign=deals_bot&utm_content=''
                   @ content))
   \<and> (\<forall>tag. py_in ''amazon'' (lower sn) \<and> AMAZON_ASSOCIATE_TAG cfg = Some tag \<and> tag \<noteq> []
        \<and> extract_amazon_asin url = None \<and> \<not> truthy_str pid
      \<longrightarrow> generate_affiliate_link cfg now url sn pid
            = url @ (if CHR ''?'' \<in> set url then ''&'' else ''?'') @ ''tag='' @ tag)"
proof (intro conjI allI impI)
  fix e assume "dispatch cfg now url (lower sn) pid = Inl e"
  then show "generate_affiliate_link cfg now url sn pid = url"
    by (rule dispatch_Inl_returns_url)
next
  fix tag
  assume "py_in ''amazon'' (lower sn) \<and> AMAZON_ASSOCIATE_TAG cfg = Some tag \<and> tag \<noteq> []
        \<and> extract_amazon_asin url = None \<and> \<not> truthy_str pid"
  then show "generate_affiliate_link cfg now url sn pid
            = url @ (if CHR ''?'' \<in> set url then ''&'' else ''?'') @ ''tag='' @ tag"
    by (simp add: generate_affiliate_link_def dispatch_def generate_amazon_link_def py_or_def
          separator_def py_in_char)
next
  assume "\<not> py_in ''amazon'' (lower sn) \<and> \<not> py_in ''ebay'' (lower sn)
        \<and> \<not> py_in ''aliexpress'' (lower sn) \<and> \<not> py_in ''walmart'' (lower sn)
        \<and> \<not> py_in ''target'' (lower sn) \<and> \<not> py_in ''bestbuy'' (lower sn)
        \<and> \<not> py_in ''best buy'' (lower sn)"
  then have "dispatch cfg now url (lower sn) pid = generate_generic_tracking_link url (lower sn)"
    by (simp add: dispatch_def)
  then show "generate_affiliate_link cfg now url sn pid =
            (case quote_plus (replace_space (lower (lower sn))) of
               Inl e \<Rightarrow> url
             | Inr content \<Rightarrow>
                 url @ (if CHR ''?'' \<in> set url then ''&'' else ''?'')
                   @ ''utm_source=telegram_bot&utm_medium=affiliate&utm_campaign=deals_bot&utm_content=''
                   @ content)"
    by (simp add: generate_affiliate_link_def generic_link_form split: sum.splits)
qed (simp_all add: generate_affiliate_link_def dispatch_def generate_amazon_link_def
       generate_ebay_link_def generate_aliexpress_link_def generate_walmart_link_def
       generate_target_link_def generate_bestbuy_link_def impact_link_unconfigured)

theorem affiliate_link_fallbacks_witness:
  "generate_affiliate_link cfg_none 1700000000 ''https://www.amazon.com/dp/B0CHX1W1XY'' ''Amazon'' None
     = ''https://www.amazon.com/dp/B0CHX1W1XY''
   \<and> generate_affiliate_link cfg_none 1700000000 ''https://www.ebay.com/itm/1234'' ''eBay'' None
     = ''https://www.ebay.com/itm/1234''
   \<and> generate_affiliate_link cfg_walmart 1700000000 url_surrogate ''Walmart'' None = url_surrogate
   \<and> generate_affiliate_link cfg_none 1700000000 ''https://www.nike.com/t/shoe'' ''Nike Store'' None
     = ''https://www.nike.com/t/shoe?utm_source=telegram_bot&utm_medium=affiliate&utm_campaign=deals_bot&utm_content=nike_store''
   \<and> generate_affiliate_link cfg_amazon 1700000000 ''https://www.amazon.com/s?k=kettle'' ''Amazon'' None
     = ''https://www.amazon.com/s?k=kettle&tag=yourtag-20''"
proof -
  have a: "py_in ''amazon'' (lower ''Amazon'')" by (simp add: str_defs)
  have b: "\<not> py_in ''amazon'' (lower ''eBay'')" "py_in ''ebay'' (lower ''eBay'')"
    by (simp_all add: str_defs)
  have c: "dispatch cfg_walmart 1700000000 url_surrogate (lower ''Walmart'') None = Inl UnicodeEncodeError"
    by (simp add: dispatch_def generate_walmart_link_def impact_link_def cfg_walmart_def
          url_surrogate_def str_defs)
  have d: "\<not> py_in ''amazon'' (lower ''Nike Store'')" "\<not> py_in ''ebay'' (lower ''Nike Store'')"
      "\<not> py_in ''aliexpress'' (lower ''Nike Store'')" "\<not> py_in ''walmart'' (lower ''Nike Store'')"
      "\<not> py_in ''target'' (lower ''Nike Store'')" "\<not> py_in ''bestbuy'' (lower ''Nike Store'')"
      "\<not> py_in ''best buy'' (lower ''Nike Store'')"
    by (simp_all add: str_defs)
  have q: "quote_plus (replace_space (lower (lower ''Nike Store''))) = Inr ''nike_store''"
    by (simp add: str_defs)
  have e: "extract_amazon_asin ''https://www.amazon.com/s?k=kettle'' = None"
    by (simp add: str_defs)
  have t: "AMAZON_ASSOCIATE_TAG cfg_amazon = Some ''yourtag-20''" "AMAZON_ASSOCIATE_TAG cfg_none = None"
      "EBAY_CAMPAIGN_ID cfg_none = None"
    by (simp_all add: cfg_amazon_def cfg_none_def)
  show ?thesis
    using affiliate_link_fallbacks [of "''Amazon''" cfg_none 1700000000 "''https://www.amazon.com/dp/B0CHX1W1XY''" None]
          affiliate_link_fallbacks [of "''eBay''" cfg_none 1700000000 "''https://www.ebay.com/itm/1234''" None]
          affiliate_link_fallbacks [of "''Walmart''" cfg_walmart 1700000000 url_surrogate None]
          affiliate_link_fallbacks [of "''Nike Store''" cfg_none 1700000000 "''https://www.nike.com/t/shoe''" None]
          affiliate_link_fallbacks [of "''Amazon''" cfg_amazon 1700000000 "''https://www.amazon.com/s?k=kettle''" None]
          a b c d q e t
    by simp
qed

text \<open>
  Claim C3 as stated fails: for the store \<open>Amazon\<close> with the tag set, the input
  \<open>not a url\<close>, in which no pattern is found, does not come back as it is.
\<close>

theorem unparseable_amazon_url_gets_the_tag:
  "extract_amazon_asin ''not a url'' = None
   \<and> generate_affiliate_link cfg_amazon 1700000000 ''not a url'' ''Amazon'' None
       = ''not a url?tag=yourtag-20''
   \<and> generate_affiliate_link cfg_amazon 1700000000 ''not a url'' ''Amazon'' None \<noteq> ''not a url''"
  by (simp add: generate_affiliate_link_def dispatch_def generate_amazon_link_def py_or_def
        separator_def cfg_amazon_def str_defs)


section \<open>The notification passes\<close>

text \<open>
  Claim C9, as amended. The daily-deals pass returns without a send or a report when no
  active product is a daily deal. When there is one, its recipients are the active users,
  and if every failed call fails with a \<open>TelegramError\<close>: each recipient is tried once;
  a failure whose message, in lower case, holds \<open>bot was blocked\<close> sets that user's
  active flag to false; any other \<open>TelegramError\<close> is logged and leaves the user as it
  was; the pass does not fail and reports the number of calls that succeeded. An
  exception of another class is not caught per recipient: it ends the loop and leaves
  the function.
\<close>

theorem notification_pass_counts_and_deactivates:
  "(todays_deals (products db) = []
      \<longrightarrow> send_daily_deals_notification outcome db = Returned [] None)
   \<and> (todays_deals (products db) \<noteq> []
        \<and> (\<forall>j < length (active_users (users db)). \<forall>m. outcome j \<noteq> OtherException m)
      \<longrightarrow> (\<exists>st. notify_loop outcome 0 (active_users (users db)) start = Inr st
            \<and> send_daily_deals_notification outcome db
                = Returned (served st) (Some (sent_count st))
            \<and> sent_count st
                = length (filter (\<lambda>j. outcome j = Sent) [0..<length (active_users (users db))])
            \<and> attempts st = map telegram_id (active_users (users db))
            \<and> logged st =
                concat (map (\<lambda>j. case outcome j of TelegramError msg \<Rightarrow> [msg] | _ \<Rightarrow> [])
                          [0..<length (active_users (users db))])
            \<and> length (served st) = length (active_users (users db))
            \<and> (\<forall>j < length (active_users (users db)).
                  served st ! j =
                    (case outcome j of
                       TelegramError msg \<Rightarrow>
                         if py_in ''bot was blocked'' (lower msg)
                         then (active_users (users db) ! j)\<lparr>user_is_active := Some False\<rparr>
                         else active_users (users db) ! j
                     | _ \<Rightarrow> active_users (users db) ! j))))
   \<and> (\<forall>j m. todays_deals (products db) \<noteq> []
          \<and> j < length (active_users (users db)) \<and> outcome j = OtherException m
          \<and> (\<forall>i < j. \<forall>m'. outcome i \<noteq> OtherException m')
        \<longrightarrow> (\<exists>recipients'. send_daily_deals_notification outcome db = Raised m recipients'))"
proof (intro conjI impI allI)
  assume "todays_deals (products db) = []"
  then show "send_daily_deals_notification outcome db = Returned [] None"
    by (simp add: send_daily_deals_notification_def)
next
  let ?recipients = "active_users (users db)"
  assume h: "todays_deals (products db) \<noteq> []
        \<and> (\<forall>j < length ?recipients. \<forall>m. outcome j \<noteq> OtherException m)"
  then have ok: "\<forall>j < length ?recipients. \<forall>m. outcome j \<noteq> OtherException m" by simp
  from notify_loop_result [OF ok] obtain st where st:
    "notify_loop outcome 0 ?recipients start = Inr st
        \<and> sent_count st = length (filter (\<lambda>j. outcome j = Sent) [0..<length ?recipients])
        \<and> attempts st = map telegram_id ?recipients
        \<and> logged st =
            concat (map (\<lambda>j. case outcome j of TelegramError msg \<Rightarrow> [msg] | _ \<Rightarrow> [])
                      [0..<length ?recipients])
        \<and> length (served st) = length ?recipients
        \<and> (\<forall>j < length ?recipients.
              served st ! j =
                (case outcome j of
                   TelegramError msg \<Rightarrow>
                     if py_in ''bot was blocked'' (lower msg)
                     then (?recipients ! j)\<lparr>user_is_active := Some False\<rparr>
                     else ?recipients ! j
                 | _ \<Rightarrow> ?recipients ! j))" ..
  then have loop: "notify_loop outcome 0 ?recipients start = Inr st" by (rule conjunct1)
  have pass: "send_daily_deals_notification outcome db
                = Returned (served st) (Some (sent_count st))"
    using h by (simp add: send_daily_deals_notification_def filter_by_is_active loop)
  from st pass
  show "\<exists>st. notify_loop outcome 0 ?recipients start = Inr st
            \<and> send_daily_deals_notification outcome db
                = Returned (served st) (Some (sent_count st))
            \<and> sent_count st
                = length (filter (\<lambda>j. outcome j = Sent) [0..<length ?recipients])
            \<and> attempts st = map telegram_id ?recipients
            \<and> logged st =
                concat (map (\<lambda>j. case outcome j of TelegramError msg \<Rightarrow> [msg] | _ \<Rightarrow> [])
                          [0..<length ?recipients])
            \<and> length (served st) = length ?recipients
            \<and> (\<forall>j < length ?recipients.
                  served st ! j =
                    (case outcome j of
                       TelegramError msg \<Rightarrow>
                         if py_in ''bot was blocked'' (lower msg)
                         then (?recipients ! j)\<lparr>user_is_active := Some False\<rparr>
                         else ?recipients ! j
                     | _ \<Rightarrow> ?recipients ! j))"
    by (intro exI [of _ st]) blast
next
  fix j m
  assume h: "todays_deals (products db) \<noteq> []
          \<and> j < length (active_users (users db)) \<and> outcome j = OtherException m
          \<and> (\<forall>i < j. \<forall>m'. outcome i \<noteq> OtherException m')"
  then obtain recipients' where
    "notify_loop outcome 0 (active_users (users db)) start = Inl (m, recipients')"
    using notify_loop_raises [of j "active_users (users db)" outcome 0 m start] by auto
  with h show "\<exists>recipients'. send_daily_deals_notification outcome db = Raised m recipients'"
    by (simp add: send_daily_deals_notification_def filter_by_is_active)
qed

theorem notification_pass_witness:
  "send_daily_deals_notification outcomes_mixed db_four_users
     = Returned [user_a\<lparr>user_is_active := Some False\<rparr>, user_b, user_c] (Some 1)
   \<and> send_daily_deals_notification outcomes_crash db_four_users
     = Raised ''RuntimeError'' [user_a\<lparr>user_is_active := Some False\<rparr>, user_b, user_c]
   \<and> send_daily_deals_notification outcomes_mixed db_no_deals = Returned [] None"
proof -
  have deals: "todays_deals (products db_four_users) \<noteq> []"
    by (simp add: db_four_users_def sample_catalog_todays_deals)
  have none: "todays_deals (products db_no_deals) = []"
    by (simp add: db_no_deals_def todays_deals_def query_filter_def)
  have ok: "todays_deals (products db_four_users) \<noteq> []
        \<and> (\<forall>j < length (active_users (users db_four_users)). \<forall>m. outcomes_mixed j \<noteq> OtherException m)"
    using deals by (simp add: outcomes_mixed_def)
  from notification_pass_counts_and_deactivates
         [of db_four_users outcomes_mixed, THEN conjunct2, THEN conjunct1, THEN mp, OF ok]
  obtain st where all:
    "notify_loop outcomes_mixed 0 (active_users (users db_four_users)) start = Inr st
     \<and> send_daily_deals_notification outcomes_mixed db_four_users
         = Returned (served st) (Some (sent_count st))
     \<and> sent_count st
         = length (filter (\<lambda>j. outcomes_mixed j = Sent)
                     [0..<length (active_users (users db_four_users))])
     \<and> attempts st = map telegram_id (active_users (users db_four_users))
     \<and> logged st =
         concat (map (\<lambda>j. case outcomes_mixed j of TelegramError msg \<Rightarrow> [msg] | _ \<Rightarrow> [])
                   [0..<length (active_users (users db_four_users))])
     \<and> length (served st) = length (active_users (users db_four_users))
     \<and> (\<forall>j < length (active_users (users db_four_users)).
           served st ! j =
             (case outcomes_mixed j of
                TelegramError msg \<Rightarrow>
                  if py_in ''bot was blocked'' (lower msg)
                  then (active_users (users db_four_users) ! j)\<lparr>user_is_active := Some False\<rparr>
                  else active_users (users db_four_users) ! j
              | _ \<Rightarrow> active_users (users db_four_users) ! j))" ..
  then have st:
    "send_daily_deals_notification outcomes_mixed db_four_users
       = Returned (served st) (Some (sent_count st))"
    "sent_count st
       = length (filter (\<lambda>j. outcomes_mixed j = Sent) [0..<length (active_users (users db_four_users))])"
    "length (served st) = length (active_users (users db_four_users))"
    "\<forall>j < length (active_users (users db_four_users)).
        served st ! j =
          (case outcomes_mixed j of
             TelegramError msg \<Rightarrow>
               if py_in ''bot was blocked'' (lower msg)
               then (active_users (users db_four_users) ! j)\<lparr>user_is_active := Some False\<rparr>
               else active_users (users db_four_users) ! j
           | _ \<Rightarrow> active_users (users db_four_users) ! j)"
    by blast+
  have n: "sent_count st = 1"
    unfolding st(2) db_four_users_active by (simp add: outcomes_mixed_def upt_rec)
  have l: "length (served st) = 3"
    unfolding st(3) db_four_users_active by simp
  have s0: "served st ! 0 = user_a\<lparr>user_is_active := Some False\<rparr>"
    using st(4) unfolding db_four_users_active by (simp add: outcomes_mixed_def low_defs)
  have s1: "served st ! 1 = user_b"
    using st(4) unfolding db_four_users_active by (simp add: outcomes_mixed_def low_defs)
  have s2: "served st ! 2 = user_c"
    using st(4) unfolding db_four_users_active by (simp add: outcomes_mixed_def low_defs)
  have "served st = [user_a\<lparr>user_is_active := Some False\<rparr>, user_b, user_c]"
    using l s0 s1 s2
    by (intro nth_equalityI) (auto simp: less_Suc_eq numeral_3_eq_3 numeral_2_eq_2)
  with st(1) n have mixed: "send_daily_deals_notification outcomes_mixed db_four_users
     = Returned [user_a\<lparr>user_is_active := Some False\<rparr>, user_b, user_c] (Some 1)"
    by simp
  have crash: "todays_deals (products db_four_users) \<noteq> []
          \<and> 1 < length (active_users (users db_four_users))
          \<and> outcomes_crash 1 = OtherException ''RuntimeError''
          \<and> (\<forall>i < 1. \<forall>m'. outcomes_crash i \<noteq> OtherException m')"
    using deals by (simp add: db_four_users_active outcomes_crash_def)
  from notification_pass_counts_and_deactivates
         [of db_four_users outcomes_crash, THEN conjunct2, THEN conjunct2, rule_format, OF crash]
  obtain recipients' where r: "send_daily_deals_notification outcomes_crash db_four_users
       = Raised ''RuntimeError'' recipients'" by blast
  have "send_daily_deals_notification outcomes_crash db_four_users
     = Raised ''RuntimeError'' [user_a\<lparr>user_is_active := Some False\<rparr>, user_b, user_c]"
    using deals
    by (simp add: send_daily_deals_notification_def filter_by_is_active db_four_users_active
          start_def outcomes_crash_def on_telegram_error_def low_defs)
  moreover have "send_daily_deals_notification outcomes_mixed db_no_deals = Returned [] None"
    using notification_pass_counts_and_deactivates [of db_no_deals outcomes_mixed] none by simp
  ultimately show ?thesis using mixed by simp
qed

text \<open>
  Claim C9 as stated fails: in a daily-deals pass, a \<open>TelegramError\<close> whose message
  holds \<open>blocked\<close> but not \<open>bot was blocked\<close> leaves the user active.
\<close>

theorem blocked_without_bot_was_blocked_keeps_user_active:
  "todays_deals (products db_one_user) = [0, 2, 5]
   \<and> active_users (users db_one_user) = [user_a]
   \<and> py_in ''blocked'' ''Forbidden: user is blocked''
   \<and> send_daily_deals_notification outcomes_user_blocked db_one_user = Returned [user_a] (Some 0)
   \<and> user_is_active user_a = Some True"
proof -
  have deals: "todays_deals (products db_one_user) = [0, 2, 5]"
    by (simp add: db_one_user_def sample_catalog_todays_deals)
  have act: "active_users (users db_one_user) = [user_a]"
    by (simp add: active_users_def db_one_user_def user_a_def)
  have sent: "send_daily_deals_notification outcomes_user_blocked db_one_user
                = Returned [user_a] (Some 0)"
    by (simp add: send_daily_deals_notification_def deals filter_by_is_active act start_def
          outcomes_user_blocked_def on_telegram_error_def low_defs)
  have "py_in ''blocked'' ''Forbidden: user is blocked''" by simp
  moreover have "user_is_active user_a = Some True" by (simp add: user_a_def)
  ultimately show ?thesis using deals act sent by blast
qed


section \<open>The daily-deal reselection pass\<close>

text \<open>
  Claim C4, as amended. With \<open>randint\<close> and \<open>sample\<close> as the library promises them,
  a run of the reselection pass first clears the flag of every flagged product, so that
  afterwards the flagged products are exactly the newly selected ones. The selected
  products are distinct candidates, the candidates being at most 20 active products with
  a discount of at least 15 and a rating of at least 4.0, none of them with a smaller
  discount than a qualifying product left out. The selection has
  \<open>min(n, number of candidates)\<close> elements for the drawn \<open>n\<close> in 8..12: never more
  than 12, at least 8 when there are at least 8 candidates, a strict subset of the
  candidates when there are more than \<open>n\<close> of them, and all the candidates otherwise.
\<close>

theorem daily_deals_reselection:
  "randint_ok (randint env)
   \<and> sample_ok
        (sample env (length (candidates tbl)) (min (randint env) (length (candidates tbl))))
        (length (candidates tbl)) (min (randint env) (length (candidates tbl)))
   \<longrightarrow>
     length (fst (refresh_daily_deals env tbl)) = length tbl
     \<and> (\<forall>i < length tbl.
           (is_daily_deal (fst (refresh_daily_deals env tbl) ! i) = Some True)
             = (i \<in> set (snd (refresh_daily_deals env tbl))))
     \<and> (\<forall>i < length tbl.
           is_daily_deal (tbl ! i) = Some True \<and> i \<notin> set (snd (refresh_daily_deals env tbl))
             \<longrightarrow> is_daily_deal (fst (refresh_daily_deals env tbl) ! i) = Some False)
     \<and> distinct (snd (refresh_daily_deals env tbl))
     \<and> set (snd (refresh_daily_deals env tbl)) \<subseteq> set (candidates tbl)
     \<and> length (snd (refresh_daily_deals env tbl))
         = min (randint env) (length (candidates tbl))
     \<and> length (snd (refresh_daily_deals env tbl)) \<le> 12
     \<and> (8 \<le> length (candidates tbl) \<longrightarrow> 8 \<le> length (snd (refresh_daily_deals env tbl)))
     \<and> (randint env < length (candidates tbl)
           \<longrightarrow> set (snd (refresh_daily_deals env tbl)) \<subset> set (candidates tbl))
     \<and> (length (candidates tbl) \<le> randint env
           \<longrightarrow> set (snd (refresh_daily_deals env tbl)) = set (candidates tbl))
     \<and> length (candidates tbl) \<le> 20
     \<and> (\<forall>i \<in> set (candidates tbl).
           i < length tbl \<and> is_active (tbl ! i) = Some True
           \<and> (\<exists>d. discount_percentage (tbl ! i) = Some d \<and> 15 \<le> d)
           \<and> (\<exists>r. rating (tbl ! i) = Some r \<and> 4 \<le> r))
     \<and> (\<forall>i \<in> set (candidates tbl). \<forall>j < length tbl.
           qualifies (tbl ! j) \<and> j \<notin> set (candidates tbl)
             \<longrightarrow> (\<forall>d d'. discount_percentage (tbl ! i) = Some d
                        \<and> discount_percentage (tbl ! j) = Some d' \<longrightarrow> d' \<le> d))"
proof
  let ?cands = "candidates tbl"
  let ?deals = "snd (refresh_daily_deals env tbl)"
  let ?tbl1 = "clear_daily_deals (cleared_at env) tbl"
  let ?tbl' = "fst (refresh_daily_deals env tbl)"
  assume h: "randint_ok (randint env)
   \<and> sample_ok
        (sample env (length ?cands) (min (randint env) (length ?cands)))
        (length ?cands) (min (randint env) (length ?cands))"
  then have r: "8 \<le> randint env" "randint env \<le> 12" by (auto simp: randint_ok_def)
  from h have ok: "sample_ok (sample env (length ?cands) (min (randint env) (length ?cands)))
        (length ?cands) (min (randint env) (length ?cands))" by simp
  have dd: "distinct ?deals" and ds: "set ?deals \<subseteq> set ?cands"
    and dl: "length ?deals = min (randint env) (length ?cands)"
    unfolding refresh_daily_deals_parts(1)
    using sampled_deals [OF ok candidates_distinct] by blast+
  have len: "length ?tbl' = length tbl"
    by (simp add: refresh_daily_deals_parts(2) mark_loop_length clear_daily_deals_length)
  have flag: "\<forall>i < length tbl. (is_daily_deal (?tbl' ! i) = Some True) = (i \<in> set ?deals)"
    by (simp add: refresh_daily_deals_parts(2) mark_loop_flag clear_daily_deals_length
          clear_daily_deals_not_flagged)
  have cleared: "\<forall>i < length tbl. is_daily_deal (tbl ! i) = Some True \<and> i \<notin> set ?deals
             \<longrightarrow> is_daily_deal (?tbl' ! i) = Some False"
    by (simp add: refresh_daily_deals_parts(2) mark_loop_other clear_daily_deals_nth)
  have cards: "card (set ?deals) = length ?deals" "card (set ?cands) = length ?cands"
    using dd candidates_distinct by (simp_all add: distinct_card)
  have strict: "randint env < length ?cands \<longrightarrow> set ?deals \<subset> set ?cands"
  proof
    assume "randint env < length ?cands"
    with dl cards have "card (set ?deals) < card (set ?cands)" by simp
    then have "set ?deals \<noteq> set ?cands" by auto
    with ds show "set ?deals \<subset> set ?cands" by blast
  qed
  have whole: "length ?cands \<le> randint env \<longrightarrow> set ?deals = set ?cands"
  proof
    assume "length ?cands \<le> randint env"
    with dl cards have "card (set ?cands) \<le> card (set ?deals)" by simp
    with ds show "set ?deals = set ?cands"
      by (intro card_seteq) auto
  qed
  have qual: "\<forall>i \<in> set ?cands.
           i < length tbl \<and> is_active (tbl ! i) = Some True
           \<and> (\<exists>d. discount_percentage (tbl ! i) = Some d \<and> 15 \<le> d)
           \<and> (\<exists>r. rating (tbl ! i) = Some r \<and> 4 \<le> r)"
    using candidates_qualify [of _ tbl] by (auto simp: qualifies_iff)
  have top: "\<forall>i \<in> set ?cands. \<forall>j < length tbl.
           qualifies (tbl ! j) \<and> j \<notin> set ?cands
             \<longrightarrow> (\<forall>d d'. discount_percentage (tbl ! i) = Some d
                        \<and> discount_percentage (tbl ! j) = Some d' \<longrightarrow> d' \<le> d)"
  proof (intro ballI allI impI)
    fix i j d d'
    assume "i \<in> set ?cands" "j < length tbl" "qualifies (tbl ! j) \<and> j \<notin> set ?cands"
      "discount_percentage (tbl ! i) = Some d \<and> discount_percentage (tbl ! j) = Some d'"
    then show "d' \<le> d"
      using candidates_top_ranked [of i tbl j] by simp
  qed
  from len flag cleared dd ds dl r strict whole candidates_length [of tbl] qual top
  show "length ?tbl' = length tbl
     \<and> (\<forall>i < length tbl. (is_daily_deal (?tbl' ! i) = Some True) = (i \<in> set ?deals))
     \<and> (\<forall>i < length tbl.
           is_daily_deal (tbl ! i) = Some True \<and> i \<notin> set ?deals
             \<longrightarrow> is_daily_deal (?tbl' ! i) = Some False)
     \<and> distinct ?deals
     \<and> set ?deals \<subseteq> set ?cands
     \<and> length ?deals = min (randint env) (length ?cands)
     \<and> length ?deals \<le> 12
     \<and> (8 \<le> length ?cands \<longrightarrow> 8 \<le> length ?deals)
     \<and> (randint env < length ?cands \<longrightarrow> set ?deals \<subset> set ?cands)
     \<and> (length ?cands \<le> randint env \<longrightarrow> set ?deals = set ?cands)
     \<and> length ?cands \<le> 20
     \<and> (\<forall>i \<in> set ?cands.
           i < length tbl \<and> is_active (tbl ! i) = Some True
           \<and> (\<exists>d. discount_percentage (tbl ! i) = Some d \<and> 15 \<le> d)
           \<and> (\<exists>r. rating (tbl ! i) = Some r \<and> 4 \<le> r))
     \<and> (\<forall>i \<in> set ?cands. \<forall>j < length tbl.
           qualifies (tbl ! j) \<and> j \<notin> set ?cands
             \<longrightarrow> (\<forall>d d'. discount_percentage (tbl ! i) = Some d
                        \<and> discount_percentage (tbl ! j) = Some d' \<longrightarrow> d' \<le> d))"
    by (intro conjI) (assumption | simp)+
qed

theorem daily_deals_reselection_witness:
  "snd (refresh_daily_deals env_deals sample_catalog) = [1, 5, 2]
   \<and> is_daily_deal (fst (refresh_daily_deals env_deals sample_catalog) ! 0) = Some False
   \<and> is_daily_deal (fst (refresh_daily_deals env_deals sample_catalog) ! 1) = Some True
   \<and> length (snd (refresh_daily_deals env_deals large_catalog)) = 8
   \<and> set (snd (refresh_daily_deals env_deals large_catalog)) \<subset> set (candidates large_catalog)"
proof -
  have small: "randint_ok (randint env_deals)
   \<and> sample_ok
        (sample env_deals (length (candidates sample_catalog))
           (min (randint env_deals) (length (candidates sample_catalog))))
        (length (candidates sample_catalog))
        (min (randint env_deals) (length (candidates sample_catalog)))"
    by (simp add: sample_catalog_candidates env_deals_def randint_ok_def sample_ok_def)
  have large: "randint_ok (randint env_deals)
   \<and> sample_ok
        (sample env_deals (length (candidates large_catalog))
           (min (randint env_deals) (length (candidates large_catalog))))
        (length (candidates large_catalog))
        (min (randint env_deals) (length (candidates large_catalog)))"
    by (simp add: large_catalog_candidates env_deals_def randint_ok_def sample_ok_def list_all_iff)
  have deals: "snd (refresh_daily_deals env_deals sample_catalog) = [1, 5, 2]"
    by (simp add: refresh_daily_deals_parts sample_catalog_candidates env_deals_def)
  have zero: "0 \<notin> set (snd (refresh_daily_deals env_deals sample_catalog))"
    and one: "1 \<in> set (snd (refresh_daily_deals env_deals sample_catalog))"
    by (simp_all add: deals)
  have flagged: "is_daily_deal (sample_catalog ! 0) = Some True" "length sample_catalog = 6"
    by (simp_all add: sample_catalog_def)
  show ?thesis
    using daily_deals_reselection [of env_deals sample_catalog, THEN mp, OF small]
          daily_deals_reselection [of env_deals large_catalog, THEN mp, OF large]
          deals zero one flagged
    by (simp add: large_catalog_candidates env_deals_def)
qed

text \<open>
  Claim C4 as stated fails: of the six sample products three are candidates, and the pass
  selects all three, which is neither a strict subset of the candidates nor a set of at
  least 8 products.
\<close>

theorem few_candidates_are_all_selected:
  "randint_ok (randint env_deals)
   \<and> sample_ok
        (sample env_deals (length (candidates sample_catalog))
           (min (randint env_deals) (length (candidates sample_catalog))))
        (length (candidates sample_catalog))
        (min (randint env_deals) (length (candidates sample_catalog)))
   \<and> candidates sample_catalog = [2, 5, 1]
   \<and> snd (refresh_daily_deals env_deals sample_catalog) = [1, 5, 2]
   \<and> \<not> set (snd (refresh_daily_deals env_deals sample_catalog)) \<subset> set (candidates sample_catalog)
   \<and> \<not> 8 \<le> length (snd (refresh_daily_deals env_deals sample_catalog))"
proof -
  have ok: "randint_ok (randint env_deals)
   \<and> sample_ok
        (sample env_deals (length (candidates sample_catalog))
           (min (randint env_deals) (length (candidates sample_catalog))))
        (length (candidates sample_catalog))
        (min (randint env_deals) (length (candidates sample_catalog)))"
    by (simp add: sample_catalog_candidates env_deals_def randint_ok_def sample_ok_def)
  have deals: "snd (refresh_daily_deals env_deals sample_catalog) = [1, 5, 2]"
    by (simp add: refresh_daily_deals_parts sample_catalog_candidates env_deals_def)
  have same: "\<not> set (snd (refresh_daily_deals env_deals sample_catalog))
                 \<subset> set (candidates sample_catalog)"
    unfolding deals sample_catalog_candidates by auto
  have few: "\<not> 8 \<le> length (snd (refresh_daily_deals env_deals sample_catalog))"
    unfolding deals by simp
  from ok sample_catalog_candidates deals same few show ?thesis by blast
qed


section \<open>The price update pass\<close>

text \<open>
  Claim C5. One run of the price update pass selects at most 50 products, each of them
  active and with \<open>updated_at\<close> strictly before the cutoff, two hours before the clock
  of the run; the table keeps its length, every product that is not selected is left as
  it was, in particular every product that is not active or not older than the cutoff,
  and the count of updates is at most 50.
\<close>

theorem price_update_batch_cap_and_frame:
  "length (stale_products (utcnow env) tbl) \<le> 50
   \<and> (\<forall>i \<in> set (stale_products (utcnow env) tbl).
         i < length tbl \<and> is_active (tbl ! i) = Some True
         \<and> (\<exists>t. updated_at (tbl ! i) = Some t \<and> t < utcnow env - timedelta_hours 2))
   \<and> length (fst (update_product_prices env tbl)) = length tbl
   \<and> (\<forall>i < length tbl. i \<notin> set (stale_products (utcnow env) tbl)
         \<longrightarrow> fst (update_product_prices env tbl) ! i = tbl ! i)
   \<and> (\<forall>i < length tbl.
         \<not> (is_active (tbl ! i) = Some True
            \<and> (\<exists>t. updated_at (tbl ! i) = Some t \<and> t < utcnow env - timedelta_hours 2))
         \<longrightarrow> fst (update_product_prices env tbl) ! i = tbl ! i)
   \<and> fst (snd (update_product_prices env tbl)) \<le> 50"
proof (intro conjI ballI allI impI)
  show "length (stale_products (utcnow env) tbl) \<le> 50" by (rule stale_products_length)
next
  fix i assume "i \<in> set (stale_products (utcnow env) tbl)"
  then have "i < length tbl \<and> stale (utcnow env) (tbl ! i)" by (rule stale_products_sound)
  then show "i < length tbl" "is_active (tbl ! i) = Some True"
    "\<exists>t. updated_at (tbl ! i) = Some t \<and> t < utcnow env - timedelta_hours 2"
    by (simp_all add: stale_def sql_less_iff)
next
  show "length (fst (update_product_prices env tbl)) = length tbl"
    by (simp add: update_product_prices_def price_loop_length)
next
  fix i assume "i \<notin> set (stale_products (utcnow env) tbl)"
  then show "fst (update_product_prices env tbl) ! i = tbl ! i"
    by (simp add: update_product_prices_def price_loop_other)
next
  fix i
  assume "\<not> (is_active (tbl ! i) = Some True
            \<and> (\<exists>t. updated_at (tbl ! i) = Some t \<and> t < utcnow env - timedelta_hours 2))"
  then have "\<not> stale (utcnow env) (tbl ! i)" by (simp add: stale_def sql_less_iff)
  then have "i \<notin> set (stale_products (utcnow env) tbl)"
    using stale_products_sound by blast
  then show "fst (update_product_prices env tbl) ! i = tbl ! i"
    by (simp add: update_product_prices_def price_loop_other)
next
  have "fst (snd (update_product_prices env tbl)) \<le> 0 + length (stale_products (utcnow env) tbl)"
    unfolding update_product_prices_def by (rule price_loop_count)
  with stale_products_length [of "utcnow env" tbl]
  show "fst (snd (update_product_prices env tbl)) \<le> 50" by simp
qed

theorem price_update_frame_witness:
  "stale_products (utcnow env_drop) [kettle, inactive_kettle] = [0]
   \<and> fst (update_product_prices env_drop [kettle, inactive_kettle]) ! 1 = inactive_kettle
   \<and> price (fst (update_product_prices env_drop [kettle, inactive_kettle]) ! 0) = Some 9"
proof -
  have sel: "stale_products (utcnow env_drop) [kettle, inactive_kettle] = [0]"
    by (simp add: pass_defs env_drop_def kettle_def inactive_kettle_def)
  have new: "price (fst (update_product_prices env_drop [kettle, inactive_kettle]) ! 0) = Some 9"
    by (simp add: pass_defs env_drop_def kettle_def inactive_kettle_def)
  show ?thesis
    using price_update_batch_cap_and_frame [of env_drop "[kettle, inactive_kettle]"] sel new
    by simp
qed


text \<open>
  Claim C1, as amended. For the \<open>k\<close>-th product selected by the price update pass: if
  the simulated price equals the stored one, the product is left as it was, stored
  discount included; if the price changes, the new price is stored, and when the original
  price is set and positive the stored discount is
  \<open>(original_price - price) / original_price * 100\<close> if the original price exceeds
  the new price and null otherwise; when the original price is null or zero the stored
  discount stays as it was.
\<close>

theorem discount_recomputed_when_price_changes:
  "k < length (stale_products (utcnow env) tbl) \<and> i = stale_products (utcnow env) tbl ! k
   \<longrightarrow>
     (simulate_price_change (draws env k) (price (tbl ! i)) = price (tbl ! i)
        \<longrightarrow> fst (update_product_prices env tbl) ! i = tbl ! i)
     \<and> (simulate_price_change (draws env k) (price (tbl ! i)) \<noteq> price (tbl ! i)
        \<longrightarrow> price (fst (update_product_prices env tbl) ! i)
              = simulate_price_change (draws env k) (price (tbl ! i))
          \<and> original_price (fst (update_product_prices env tbl) ! i) = original_price (tbl ! i)
          \<and> (\<forall>orig new. original_price (tbl ! i) = Some orig \<and> 0 < orig
                \<and> simulate_price_change (draws env k) (price (tbl ! i)) = Some new
              \<longrightarrow> discount_percentage (fst (update_product_prices env tbl) ! i)
                    = (if new < orig then Some ((orig - new) / orig * 100) else None))
          \<and> (original_price (tbl ! i) = None \<or> original_price (tbl ! i) = Some 0
              \<longrightarrow> discount_percentage (fst (update_product_prices env tbl) ! i)
                    = discount_percentage (tbl ! i)))"
proof (intro impI)
  assume h: "k < length (stale_products (utcnow env) tbl) \<and> i = stale_products (utcnow env) tbl ! k"
  let ?p = "tbl ! i"
  let ?d = "draws env k"
  let ?p' = "fst (update_product_prices env tbl) ! i"
  from h have after: "?p' = fst (update_price (stamps env k) ?d i ?p)"
    using update_product_prices_nth [of k env tbl] by simp
  have same: "simulate_price_change ?d (price ?p) = price ?p \<longrightarrow> ?p' = ?p"
    by (simp add: after update_price_unchanged)
  have changed: "simulate_price_change ?d (price ?p) \<noteq> price ?p
        \<longrightarrow> price ?p' = simulate_price_change ?d (price ?p)
          \<and> original_price ?p' = original_price ?p
          \<and> (\<forall>orig new. original_price ?p = Some orig \<and> 0 < orig
                \<and> simulate_price_change ?d (price ?p) = Some new
              \<longrightarrow> discount_percentage ?p'
                    = (if new < orig then Some ((orig - new) / orig * 100) else None))
          \<and> (original_price ?p = None \<or> original_price ?p = Some 0
              \<longrightarrow> discount_percentage ?p' = discount_percentage ?p)"
  proof
    assume "simulate_price_change ?d (price ?p) \<noteq> price ?p"
    then obtain old new where c: "price ?p = Some old"
        "simulate_price_change ?d (price ?p) = Some new" "new \<noteq> old"
      using simulate_changed by blast
    show "price ?p' = simulate_price_change ?d (price ?p)
          \<and> original_price ?p' = original_price ?p
          \<and> (\<forall>orig new. original_price ?p = Some orig \<and> 0 < orig
                \<and> simulate_price_change ?d (price ?p) = Some new
              \<longrightarrow> discount_percentage ?p'
                    = (if new < orig then Some ((orig - new) / orig * 100) else None))
          \<and> (original_price ?p = None \<or> original_price ?p = Some 0
              \<longrightarrow> discount_percentage ?p' = discount_percentage ?p)"
      unfolding after
      using update_price_changed [OF c, where stamp = "stamps env k" and i = i] c(2)
      by auto
  qed
  from same changed
  show "(simulate_price_change ?d (price ?p) = price ?p \<longrightarrow> ?p' = ?p)
     \<and> (simulate_price_change ?d (price ?p) \<noteq> price ?p
        \<longrightarrow> price ?p' = simulate_price_change ?d (price ?p)
          \<and> original_price ?p' = original_price ?p
          \<and> (\<forall>orig new. original_price ?p = Some orig \<and> 0 < orig
                \<and> simulate_price_change ?d (price ?p) = Some new
              \<longrightarrow> discount_percentage ?p'
                    = (if new < orig then Some ((orig - new) / orig * 100) else None))
          \<and> (original_price ?p = None \<or> original_price ?p = Some 0
              \<longrightarrow> discount_percentage ?p' = discount_percentage ?p))"
    by (rule conjI)
qed

theorem discount_recomputed_witness:
  "simulate_price_change (draws env_drop 0) (price kettle) = Some 9
   \<and> price (fst (update_product_prices env_drop [kettle]) ! 0) = Some 9
   \<and> discount_percentage (fst (update_product_prices env_drop [kettle]) ! 0) = Some 55"
proof -
  have sel: "stale_products (utcnow env_drop) [kettle] = [0]"
    by (simp add: pass_defs env_drop_def kettle_def)
  have new: "simulate_price_change (draws env_drop 0) (price kettle) = Some 9"
    by (simp add: pass_defs env_drop_def kettle_def)
  have p: "price kettle = Some 10" "original_price kettle = Some 20"
    by (simp_all add: kettle_def)
  show ?thesis
    using discount_recomputed_when_price_changes [of 0 env_drop "[kettle]" 0] sel new p
    by simp
qed

text \<open>
  Claim C1 as stated fails: the first sample product (price 1199.99, original price
  1299.99, stored discount 7.7) is selected by a pass that draws no change; afterwards
  its original price still exceeds its price and its stored discount is still 7.7, which
  is not \<open>(1299.99 - 1199.99) / 1299.99 * 100\<close>.
\<close>

theorem unchanged_price_keeps_stored_discount:
  "0 \<in> set (stale_products (utcnow env_quiet) sample_catalog)
   \<and> price (fst (update_product_prices env_quiet sample_catalog) ! 0) = Some 1199.99
   \<and> original_price (fst (update_product_prices env_quiet sample_catalog) ! 0) = Some 1299.99
   \<and> (1199.99 :: real) < 1299.99
   \<and> discount_percentage (fst (update_product_prices env_quiet sample_catalog) ! 0) = Some 7.7
   \<and> discount_percentage (fst (update_product_prices env_quiet sample_catalog) ! 0)
       \<noteq> Some ((1299.99 - 1199.99) / 1299.99 * 100)"
  by (simp add: pass_defs env_quiet_def sample_catalog_def)


text \<open>
  Claim C6 at the boundary. A product at 10.00 whose new price is 9.00 has dropped by
  exactly ten percent (\<open>9 \<le> 0.9 * 10\<close>), yet the pass queues no price drop for it:
  the test of the source is the strict \<open>new_price < old_price * 0.9\<close>.
\<close>

theorem price_drop_of_exactly_ten_percent_not_queued:
  "price kettle = Some 10
   \<and> price (fst (update_product_prices env_drop [kettle]) ! 0) = Some 9
   \<and> (9 :: real) \<le> 0.9 * 10
   \<and> snd (snd (update_product_prices env_drop [kettle])) = []"
  by (simp add: pass_defs env_drop_def kettle_def)


section \<open>The retention sweep\<close>

text \<open>
  Claim C8. The retention sweep deletes exactly the click-tracking rows whose
  \<open>clicked_at\<close> is strictly earlier than \<open>now\<close> minus 90 days: the rows left are the
  others, in their order, among them every row at or after the cutoff (and every row
  without a time); the count it reports is the number of rows deleted; the product and
  user tables are as before.
\<close>

theorem retention_sweep_deletes_exactly_the_old_clicks:
  "click_tracking (fst (cleanup_old_data now db))
     = filter (\<lambda>c. \<not> (\<exists>t. clicked_at c = Some t \<and> t < now - timedelta_days 90))
         (click_tracking db)
   \<and> (\<forall>c \<in> set (click_tracking db).
         (c \<in> set (click_tracking (fst (cleanup_old_data now db))))
           = (\<not> (\<exists>t. clicked_at c = Some t \<and> t < now - timedelta_days 90)))
   \<and> (\<forall>c \<in> set (click_tracking db). \<forall>t.
         clicked_at c = Some t \<and> now - timedelta_days 90 \<le> t
           \<longrightarrow> c \<in> set (click_tracking (fst (cleanup_old_data now db))))
   \<and> snd (cleanup_old_data now db)
       = length (filter (\<lambda>c. \<exists>t. clicked_at c = Some t \<and> t < now - timedelta_days 90)
                   (click_tracking db))
   \<and> products (fst (cleanup_old_data now db)) = products db
   \<and> users (fst (cleanup_old_data now db)) = users db"
  by (auto simp: cleanup_old_data_def Let_def sql_less_iff)

theorem retention_sweep_witness:
  "click_tracking (fst (cleanup_old_data 8640000000000 db_clicks)) = [click_at_cutoff, click_null]
   \<and> click_at_cutoff \<in> set (click_tracking (fst (cleanup_old_data 8640000000000 db_clicks)))
   \<and> snd (cleanup_old_data 8640000000000 db_clicks) = 1"
  using retention_sweep_deletes_exactly_the_old_clicks [of 8640000000000 db_clicks]
  by (simp add: db_clicks_def click_old_def click_at_cutoff_def click_null_def timedelta_days_def)

end
